theory Spec2Isabelle
  imports Complex_Main "HOL-Library.Multiset"
begin

section \<open>Values of the source language\<close>

text \<open>
  The program is TypeScript. A string of the source is a sequence of UTF-16 code units,
  and every function below that inspects a string does so unit by unit, so a string is
  modelled as the list of its code units. A \<open>number\<close> of the source that carries a
  rating or a score is modelled as a rational: the program only compares such numbers
  and takes the sign of a difference, which on finite doubles agree with the rationals
  they stand for. \<open>T | null\<close> is \<open>T option\<close>.
\<close>

type_synonym jsstring = "nat list"

definition str :: "string \<Rightarrow> jsstring" where
  "str s = map of_char s"

text \<open>\<open>a || b\<close> on \<open>string | null\<close>: \<open>null\<close> and the empty string are falsy.\<close>

definition or_str :: "jsstring option \<Rightarrow> jsstring \<Rightarrow> jsstring" where
  "or_str a b = (case a of None \<Rightarrow> b | Some s \<Rightarrow> if s = [] then b else s)"

text \<open>\<open>a || 0\<close> on \<open>number | null\<close>: \<open>null\<close> and \<open>0\<close> are falsy.\<close>

definition or_num :: "rat option \<Rightarrow> rat \<Rightarrow> rat" where
  "or_num a b = (case a of None \<Rightarrow> b | Some r \<Rightarrow> if r = 0 then b else r)"

section \<open>Catalog records (lib/vndb.ts)\<close>

text \<open>
  The interfaces \<open>VndbTitle\<close>, \<open>VndbImage\<close>, \<open>VndbTag\<close>, \<open>VndbProducer\<close> and \<open>VndbVn\<close>.
  Field names carry a prefix because several interfaces share \<open>id\<close>, \<open>title\<close> and
  \<open>rating\<close>.
\<close>

record VndbTitle =
  vt_lang :: jsstring
  vt_title :: jsstring
  vt_latin :: "jsstring option"
  vt_official :: bool
  vt_main :: bool

record VndbImage =
  img_id :: jsstring
  img_url :: jsstring
  img_dims :: "rat \<times> rat"
  img_sexual :: rat
  img_violence :: rat

record VndbTag =
  tag_id :: jsstring
  tag_name :: jsstring
  tag_rating :: rat
  tag_spoiler :: rat
  tag_category :: jsstring

record VndbProducer =
  prod_id :: jsstring
  prod_name :: jsstring
  prod_original :: "jsstring option"

record VndbVn =
  vn_id :: jsstring
  vn_title :: jsstring
  vn_alttitle :: "jsstring option"
  vn_titles :: "VndbTitle list"
  vn_released :: "jsstring option"
  vn_image :: "VndbImage option"
  vn_screenshots :: "VndbImage list"
  vn_olang :: jsstring
  vn_languages :: "jsstring list"
  vn_platforms :: "jsstring list"
  vn_rating :: "rat option"
  vn_votecount :: rat
  vn_length_minutes :: "rat option"
  vn_description :: "jsstring option"
  vn_tags :: "VndbTag list"
  vn_developers :: "VndbProducer list"

subsection \<open>Title selection\<close>

definition LANG_PRIORITY :: "jsstring list" where
  "LANG_PRIORITY = [str ''zh-Hans'', str ''zh-Hant'', str ''zh'']"

text \<open>The loop \<open>for (const lang of LANG_PRIORITY)\<close> of \<open>pickChineseTitle\<close>.\<close>

fun pickChineseTitle_loop :: "jsstring list \<Rightarrow> VndbTitle list \<Rightarrow> jsstring option" where
  "pickChineseTitle_loop [] titles = None"
| "pickChineseTitle_loop (l # ls) titles =
     (case find (\<lambda>t. vt_lang t = l) titles of
        Some found \<Rightarrow> Some (vt_title found)
      | None \<Rightarrow> pickChineseTitle_loop ls titles)"

definition pickChineseTitle :: "VndbTitle list \<Rightarrow> jsstring option" where
  "pickChineseTitle titles = pickChineseTitle_loop LANG_PRIORITY titles"

definition pickDisplayTitle :: "VndbVn \<Rightarrow> jsstring" where
  "pickDisplayTitle vn = or_str (pickChineseTitle (vn_titles vn)) (vn_title vn)"

definition pickOriginalTitle :: "VndbVn \<Rightarrow> jsstring" where
  "pickOriginalTitle vn =
     (case find (\<lambda>t. vt_lang t = str ''ja'') (vn_titles vn) of
        Some ja \<Rightarrow> vt_title ja
      | None \<Rightarrow>
          (if vn_alttitle vn \<noteq> None \<and> vn_alttitle vn \<noteq> Some []
           then the (vn_alttitle vn)
           else (case find vt_main (vn_titles vn) of
                   Some m \<Rightarrow> vt_title m
                 | None \<Rightarrow> [])))"



subsection \<open>Tag extraction\<close>

text \<open>
  \<open>Array.prototype.sort\<close> with a comparison function is a stable sort: \<open>a\<close> stays in
  front of \<open>b\<close> when \<open>cmp(a, b) \<le> 0\<close>. The model is the stable insertion sort for a
  comparison function.
\<close>

fun insort_by :: "('a \<Rightarrow> 'a \<Rightarrow> rat) \<Rightarrow> 'a \<Rightarrow> 'a list \<Rightarrow> 'a list" where
  "insort_by cmp x [] = [x]"
| "insort_by cmp x (y # ys) =
     (if cmp x y \<le> 0 then x # y # ys else y # insort_by cmp x ys)"

definition js_sort :: "('a \<Rightarrow> 'a \<Rightarrow> rat) \<Rightarrow> 'a list \<Rightarrow> 'a list" where
  "js_sort cmp xs = foldr (insort_by cmp) xs []"

text \<open>\<open>xs.slice(0, n)\<close>: a negative \<open>n\<close> counts from the end of the array.\<close>

definition slice0 :: "int \<Rightarrow> 'a list \<Rightarrow> 'a list" where
  "slice0 n xs = (if 0 \<le> n then take (nat n) xs else take (length xs - nat (- n)) xs)"

definition extractTags :: "VndbTag list \<Rightarrow> rat \<Rightarrow> int \<Rightarrow> jsstring list" where
  "extractTags tags maxSpoiler maxCount =
     map tag_name
       (slice0 maxCount
         (js_sort (\<lambda>a b. tag_rating b - tag_rating a)
           (filter (\<lambda>t. tag_spoiler t \<le> maxSpoiler \<and> tag_category t \<noteq> str ''ero''
                        \<and> tag_rating t \<ge> 3 / 2) tags)))"

text \<open>
  The parameters default to \<open>maxSpoiler = 0\<close> and \<open>maxCount = 8\<close>; every call in the
  program is \<open>extractTags(tags)\<close>, that is \<open>extractTags tags 0 8\<close>.
\<close>

text \<open>
  The test of the extraction rule at the default threshold. The category that the
  specification calls adult is the catalog's category code \<open>ero\<close>, as its
  Simplified Chinese is the language code \<open>zh-Hans\<close>.
\<close>

definition code_keeps :: "VndbTag \<Rightarrow> bool" where
  "code_keeps t \<longleftrightarrow>
     tag_spoiler t \<le> 0 \<and> tag_category t \<noteq> str ''ero'' \<and> tag_rating t \<ge> 3 / 2"








text \<open>Twelve tags with ratings 1.25 to 4; the third is a spoiler, the fifth of category \<open>ero\<close>.\<close>

definition tags12 :: "VndbTag list" where
  "tags12 = map (\<lambda>n. \<lparr>tag_id = [n], tag_name = [n + 96], tag_rating = 1 + of_nat n / 4,
      tag_spoiler = (if n = 3 then 1 else 0),
      tag_category = (if n = 5 then str ''ero'' else str ''cont'')\<rparr>)
     [1, 2, 3, 4, 5, 6, 7, 8, 9, 10, 11, 12]"

section \<open>Strings: trimming\<close>

text \<open>
  \<open>String.prototype.trim\<close> removes the white space and line terminator code units of
  ECMAScript from both ends: tab, line feed, vertical tab, form feed, carriage return,
  space, no-break space, the space separators of Unicode, the line and paragraph
  separators, and the byte order mark.
\<close>

definition is_ws :: "nat \<Rightarrow> bool" where
  "is_ws c \<longleftrightarrow>
     c = 0x09 \<or> c = 0x0A \<or> c = 0x0B \<or> c = 0x0C \<or> c = 0x0D \<or> c = 0x20 \<or> c = 0xA0
     \<or> c = 0x1680 \<or> (0x2000 \<le> c \<and> c \<le> 0x200A) \<or> c = 0x2028 \<or> c = 0x2029
     \<or> c = 0x202F \<or> c = 0x205F \<or> c = 0x3000 \<or> c = 0xFEFF"

definition trim :: "jsstring \<Rightarrow> jsstring" where
  "trim s = rev (dropWhile is_ws (rev (dropWhile is_ws s)))"

section \<open>Tag translation with a persistent cache (lib/database.ts, lib/deepseek.ts)\<close>

text \<open>
  The table \<open>tag_translations\<close> has the primary key \<open>en\<close> and one column \<open>zh\<close>: a map from
  the source text to the translation. The statements on it are taken to succeed (the
  source has no handler of its own for a failing store). A rejected promise carries the
  rendering of its reason.
\<close>

type_synonym tag_cache = "jsstring \<rightharpoonup> jsstring"

datatype error = Error jsstring

text \<open>
  \<open>getTagTranslations\<close>: \<open>SELECT en, zh FROM tag_translations WHERE en IN (tags)\<close>, as a
  \<open>Map\<close>; no query is made for an empty list.
\<close>

definition getTagTranslations :: "tag_cache \<Rightarrow> jsstring list \<Rightarrow> (jsstring \<rightharpoonup> jsstring)" where
  "getTagTranslations db tags =
     (if tags = [] then Map.empty else (\<lambda>k. if k \<in> set tags then db k else None))"

text \<open>
  \<open>setTagTranslations\<close>: one \<open>INSERT ... ON CONFLICT(en) DO UPDATE SET zh\<close> per pair, in
  order. A pair \<open>{en, zh}\<close> is modelled as \<open>(en, zh)\<close>.
\<close>

definition setTagTranslations :: "tag_cache \<Rightarrow> (jsstring \<times> jsstring) list \<Rightarrow> tag_cache" where
  "setTagTranslations db pairs = fold (\<lambda>(en, zh) d. d(en \<mapsto> zh)) pairs db"

text \<open>The loop \<open>for (i ...) cached.set(uncached[i], translated[i])\<close>.\<close>

fun cached_set_loop ::
  "jsstring list \<Rightarrow> jsstring list \<Rightarrow> (jsstring \<rightharpoonup> jsstring) \<Rightarrow> (jsstring \<rightharpoonup> jsstring)" where
  "cached_set_loop (u # us) (t # ts) cached = cached_set_loop us ts (cached(u \<mapsto> t))"
| "cached_set_loop _ _ cached = cached"

text \<open>
  \<open>translateTags\<close>. The external translator \<open>invoke("deepseek_translate_tags", ...)\<close> is a
  parameter: given the credential and the batch it fails or returns a list. The result
  holds the returned list, the cache table afterwards, and the external calls issued.
\<close>

record translate_result =
  tr_tags :: "jsstring list"
  tr_db :: tag_cache
  tr_calls :: "(jsstring \<times> jsstring list) list"

type_synonym translator = "jsstring \<Rightarrow> jsstring list \<Rightarrow> error + jsstring list"

definition translateTags ::
  "translator \<Rightarrow> tag_cache \<Rightarrow> jsstring list \<Rightarrow> jsstring \<Rightarrow> translate_result" where
  "translateTags invoke_translate db tags apiKey =
     (if tags = [] then \<lparr>tr_tags = tags, tr_db = db, tr_calls = []\<rparr>
      else
        let cached = getTagTranslations db tags;
            uncached = filter (\<lambda>t. cached t = None) tags
        in if uncached \<noteq> [] \<and> trim apiKey \<noteq> [] then
             (case invoke_translate apiKey uncached of
                Inr translated \<Rightarrow>
                  if length translated = length uncached then
                    let pairs = zip uncached translated;
                        db' = setTagTranslations db pairs;
                        cached' = cached_set_loop uncached translated cached
                    in \<lparr>tr_tags = map (\<lambda>t. or_str (cached' t) t) tags, tr_db = db',
                        tr_calls = [(apiKey, uncached)]\<rparr>
                  else \<lparr>tr_tags = map (\<lambda>t. or_str (cached t) t) tags, tr_db = db,
                         tr_calls = [(apiKey, uncached)]\<rparr>
              | Inl e \<Rightarrow>
                  \<lparr>tr_tags = map (\<lambda>t. or_str (cached t) t) tags, tr_db = db,
                    tr_calls = [(apiKey, uncached)]\<rparr>)
           else \<lparr>tr_tags = map (\<lambda>t. or_str (cached t) t) tags, tr_db = db, tr_calls = []\<rparr>)"

text \<open>The tags of a list that the cache table does not hold: the batch sent out.\<close>

definition uncached_of :: "tag_cache \<Rightarrow> jsstring list \<Rightarrow> jsstring list" where
  "uncached_of db tags = filter (\<lambda>t. db t = None) tags"

text \<open>What a call returns from the cache alone: the stored value if it is not empty, else the tag.\<close>

definition from_cache :: "tag_cache \<Rightarrow> jsstring list \<Rightarrow> jsstring list" where
  "from_cache db tags = map (\<lambda>t. or_str (db t) t) tags"



definition prefixing_translator :: translator where
  "prefixing_translator apiKey ts = Inr (map (\<lambda>t. str ''zh:'' @ t) ts)"

definition short_translator :: translator where
  "short_translator apiKey ts = Inr (map (\<lambda>t. str ''zh:'' @ t) (tl ts))"

text \<open>The example of the specification: three tags, the second one cached.\<close>

definition tags_abc :: "jsstring list" where
  "tags_abc = [str ''a'', str ''b'', str ''c'']"

definition cache_b :: tag_cache where
  "cache_b = [str ''b'' \<mapsto> str ''B'']"

definition api_key :: jsstring where
  "api_key = str ''sk-1''"

section \<open>Markup cleaning (cleanDescription in lib/vndb.ts, cleanVndbMarkup in lib/deepseek.ts)\<close>

text \<open>
  Both cleaners are a chain of \<open>String.prototype.replace\<close> calls with global regular
  expressions, followed by \<open>trim\<close>. The six expressions have three shapes, and none of
  them leaves the matcher a choice: a negated class under a greedy star is followed by
  the very character it excludes, and a lazy \<open>[\s\S]*?\<close> stops at the first place where
  the closing literal stands. So a match at a position is a function of the text from
  that position on, giving the captured group and the text after the match.
\<close>

datatype regex = UrlTag | SpoilerBlock | RawBlock | CodeBlock | EditedFrom | FromNote

text \<open>A literal at the start of the text.\<close>

fun strip_prefix :: "jsstring \<Rightarrow> jsstring \<Rightarrow> jsstring option" where
  "strip_prefix [] s = Some s"
| "strip_prefix (p # ps) [] = None"
| "strip_prefix (p # ps) (c # cs) = (if p = c then strip_prefix ps cs else None)"

text \<open>
  With the flag \<open>i\<close> two code units match when their canonical forms agree. Outside
  unicode mode the canonical form of a code unit below 128 is its upper case, and a code
  unit from 128 on never takes a canonical form below 128; the literals compared here
  are below 128.
\<close>

definition canon :: "nat \<Rightarrow> nat" where
  "canon c = (if 97 \<le> c \<and> c \<le> 122 then c - 32 else c)"

fun strip_prefix_ci :: "jsstring \<Rightarrow> jsstring \<Rightarrow> jsstring option" where
  "strip_prefix_ci [] s = Some s"
| "strip_prefix_ci (p # ps) [] = None"
| "strip_prefix_ci (p # ps) (c # cs) = (if canon p = canon c then strip_prefix_ci ps cs else None)"

text \<open>\<open>[\s\S]*?\<close> followed by a literal: the text up to the first occurrence, and the text after it.\<close>

fun split_at_first :: "jsstring \<Rightarrow> jsstring \<Rightarrow> (jsstring \<times> jsstring) option" where
  "split_at_first close [] = (if close = [] then Some ([], []) else None)"
| "split_at_first close (c # cs) =
     (case strip_prefix close (c # cs) of
        Some rest \<Rightarrow> Some ([], rest)
      | None \<Rightarrow>
          (case split_at_first close cs of
             Some (inner, rest) \<Rightarrow> Some (c # inner, rest)
           | None \<Rightarrow> None))"

text \<open>\<open>[^\]]*\]\<close>: the text after the first \<open>]\<close>.\<close>

definition after_bracket :: "jsstring \<Rightarrow> jsstring option" where
  "after_bracket s = (case dropWhile (\<lambda>c. c \<noteq> 93) s of [] \<Rightarrow> None | _ # rest \<Rightarrow> Some rest)"

text \<open>A match at the start of the text: the captured group that the replacement uses, and the rest.\<close>

fun match_at :: "regex \<Rightarrow> jsstring \<Rightarrow> (jsstring \<times> jsstring) option" where
  "match_at UrlTag s =
     (case strip_prefix (str ''[url='') s of
        None \<Rightarrow> None
      | Some r1 \<Rightarrow>
          (case after_bracket r1 of
             None \<Rightarrow> None
           | Some r2 \<Rightarrow>
               (case strip_prefix (str ''[/url]'') (dropWhile (\<lambda>c. c \<noteq> 91) r2) of
                  None \<Rightarrow> None
                | Some rest \<Rightarrow> Some (takeWhile (\<lambda>c. c \<noteq> 91) r2, rest))))"
| "match_at SpoilerBlock s =
     (case strip_prefix (str ''[spoiler]'') s of
        None \<Rightarrow> None
      | Some r1 \<Rightarrow> split_at_first (str ''[/spoiler]'') r1)"
| "match_at RawBlock s =
     (case strip_prefix (str ''[raw]'') s of
        None \<Rightarrow> None
      | Some r1 \<Rightarrow> split_at_first (str ''[/raw]'') r1)"
| "match_at CodeBlock s =
     (case strip_prefix (str ''[code]'') s of
        None \<Rightarrow> None
      | Some r1 \<Rightarrow> split_at_first (str ''[/code]'') r1)"
| "match_at EditedFrom s =
     (case strip_prefix_ci (str ''[Edited from '') s of
        None \<Rightarrow> None
      | Some r1 \<Rightarrow> (case after_bracket r1 of None \<Rightarrow> None | Some rest \<Rightarrow> Some ([], rest)))"
| "match_at FromNote s =
     (case strip_prefix_ci (str ''[From '') s of
        None \<Rightarrow> None
      | Some r1 \<Rightarrow> (case after_bracket r1 of None \<Rightarrow> None | Some rest \<Rightarrow> Some ([], rest)))"

lemma strip_prefix_length:
  "strip_prefix p s = Some r \<Longrightarrow> length r + length p = length s"
  by (induction p s rule: strip_prefix.induct) (auto split: if_splits)

lemma strip_prefix_ci_length:
  "strip_prefix_ci p s = Some r \<Longrightarrow> length r + length p = length s"
  by (induction p s rule: strip_prefix_ci.induct) (auto split: if_splits)

lemma split_at_first_length:
  "split_at_first close s = Some (inner, rest) \<Longrightarrow> length rest \<le> length s"
  by (induction close s arbitrary: inner rule: split_at_first.induct)
    (auto split: if_splits option.splits dest: strip_prefix_length)

lemma after_bracket_length: "after_bracket s = Some r \<Longrightarrow> length r < length s"
proof -
  assume a: "after_bracket s = Some r"
  then obtain c where "dropWhile (\<lambda>c. c \<noteq> 93) s = c # r"
    by (auto simp: after_bracket_def split: list.splits)
  then have "Suc (length r) = length (dropWhile (\<lambda>c. c \<noteq> 93) s)" by simp
  also have "\<dots> \<le> length s" by (rule length_dropWhile_le)
  finally show ?thesis by simp
qed

lemma match_at_shorter: "match_at re s = Some (g, rest) \<Longrightarrow> length rest < length s"
proof (cases re)
  case UrlTag
  assume "match_at re s = Some (g, rest)"
  with UrlTag obtain r1 r2 where 1: "strip_prefix (str ''[url='') s = Some r1"
    and 2: "after_bracket r1 = Some r2"
    and 3: "strip_prefix (str ''[/url]'') (dropWhile (\<lambda>c. c \<noteq> 91) r2) = Some rest"
    by (auto split: option.splits)
  from strip_prefix_length [OF 3] have "length rest \<le> length (dropWhile (\<lambda>c. c \<noteq> 91) r2)" by simp
  also have "\<dots> \<le> length r2" by (rule length_dropWhile_le)
  also from after_bracket_length [OF 2] have "\<dots> < length r1" .
  also from strip_prefix_length [OF 1] have "\<dots> \<le> length s" by simp
  finally show ?thesis .
next
  case SpoilerBlock
  assume "match_at re s = Some (g, rest)"
  with SpoilerBlock show ?thesis
    by (auto split: option.splits dest!: strip_prefix_length split_at_first_length simp: str_def)
next
  case RawBlock
  assume "match_at re s = Some (g, rest)"
  with RawBlock show ?thesis
    by (auto split: option.splits dest!: strip_prefix_length split_at_first_length simp: str_def)
next
  case CodeBlock
  assume "match_at re s = Some (g, rest)"
  with CodeBlock show ?thesis
    by (auto split: option.splits dest!: strip_prefix_length split_at_first_length simp: str_def)
next
  case EditedFrom
  assume "match_at re s = Some (g, rest)"
  with EditedFrom show ?thesis
    by (auto split: option.splits dest!: strip_prefix_ci_length after_bracket_length)
next
  case FromNote
  assume "match_at re s = Some (g, rest)"
  with FromNote show ?thesis
    by (auto split: option.splits dest!: strip_prefix_ci_length after_bracket_length)
qed

text \<open>
  \<open>s.replace(re, replacement)\<close> with the flag \<open>g\<close>: the text is scanned from the left; at
  a match the replacement is written and the scan goes on after the match, elsewhere the
  code unit is copied. The replacement is given as a function of the captured group
  (\<open>"$1"\<close> and \<open>"$2"\<close> are the group itself, a constant string is a constant function).
\<close>

function replace_all :: "regex \<Rightarrow> (jsstring \<Rightarrow> jsstring) \<Rightarrow> jsstring \<Rightarrow> jsstring" where
  "replace_all re f [] = []"
| "replace_all re f (c # cs) =
     (case match_at re (c # cs) of
        Some (g, rest) \<Rightarrow> f g @ replace_all re f rest
      | None \<Rightarrow> c # replace_all re f cs)"
  by pat_completeness auto
termination
  by (relation "measure (\<lambda>(re, f, s). length s)") (auto dest: match_at_shorter)

declare replace_all.simps [simp del] match_at.simps [simp del]

text \<open>The placeholder that \<open>cleanDescription\<close> writes for a spoiler block, in code units.\<close>

definition SPOILER_HIDDEN :: jsstring where
  "SPOILER_HIDDEN = [91, 21095, 36879, 20869, 23481, 24050, 38544, 34255, 93]"

definition cleanDescription :: "jsstring option \<Rightarrow> jsstring" where
  "cleanDescription desc =
     (case desc of
        None \<Rightarrow> []
      | Some d \<Rightarrow>
          if d = [] then []
          else trim
            (replace_all FromNote (\<lambda>g. [])
              (replace_all EditedFrom (\<lambda>g. [])
                (replace_all CodeBlock (\<lambda>g. g)
                  (replace_all RawBlock (\<lambda>g. g)
                    (replace_all SpoilerBlock (\<lambda>g. SPOILER_HIDDEN)
                      (replace_all UrlTag (\<lambda>g. g) d)))))))"

definition cleanVndbMarkup :: "jsstring \<Rightarrow> jsstring" where
  "cleanVndbMarkup text =
     trim
       (replace_all FromNote (\<lambda>g. [])
         (replace_all EditedFrom (\<lambda>g. [])
           (replace_all CodeBlock (\<lambda>g. g)
             (replace_all RawBlock (\<lambda>g. g)
               (replace_all SpoilerBlock (\<lambda>g. [])
                 (replace_all UrlTag (\<lambda>g. g) text))))))"


text \<open>
  Marked-up text, piece by piece: plain text without an opening bracket, a link
  \<open>[url=X]Y[/url]\<close>, the blocks \<open>[spoiler]S[/spoiler]\<close>, \<open>[raw]S[/raw]\<close> and
  \<open>[code]S[/code]\<close>, the two editorial annotations with their opening words in any
  letter case, and the placeholder. A document is the concatenation of its pieces.
\<close>

datatype piece =
    Text jsstring
  | Url jsstring jsstring
  | Spoiler jsstring
  | Raw jsstring
  | Code jsstring
  | Edited jsstring jsstring
  | From jsstring jsstring
  | Hidden


















section \<open>Library store (lib/database.ts, types/game.ts)\<close>

datatype PlayStatus = unplayed | playing | finished | shelved

text \<open>
  \<open>GameFormData\<close>. The vote count and the length are optional here: the object that the
  import dialog builds leaves them out, and \<open>addGame\<close> reads them with \<open>|| 0\<close>.
\<close>

record GameFormData =
  fd_title :: jsstring
  fd_title_original :: jsstring
  fd_vndb_id :: jsstring
  fd_developer :: jsstring
  fd_release_date :: jsstring
  fd_exe_path :: jsstring
  fd_install_path :: jsstring
  fd_save_path :: jsstring
  fd_cover_path :: jsstring
  fd_screenshots :: "jsstring list"
  fd_tags :: "jsstring list"
  fd_play_status :: PlayStatus
  fd_rating :: rat
  fd_vndb_rating :: rat
  fd_vndb_votecount :: "rat option"
  fd_length_minutes :: "rat option"
  fd_notes :: jsstring
  fd_engine :: jsstring

text \<open>A row of the table \<open>games\<close> (the interface \<open>Game\<close>); the playtime is a count of seconds.\<close>

record Game =
  g_id :: jsstring
  g_title :: jsstring
  g_title_original :: jsstring
  g_vndb_id :: jsstring
  g_developer :: jsstring
  g_release_date :: jsstring
  g_exe_path :: jsstring
  g_install_path :: jsstring
  g_save_path :: jsstring
  g_cover_path :: jsstring
  g_screenshots :: "jsstring list"
  g_tags :: "jsstring list"
  g_play_status :: PlayStatus
  g_rating :: rat
  g_vndb_rating :: rat
  g_vndb_votecount :: rat
  g_length_minutes :: rat
  g_notes :: jsstring
  g_engine :: jsstring
  g_total_playtime :: int
  g_created_at :: jsstring
  g_updated_at :: jsstring

text \<open>A row of the table \<open>play_sessions\<close>.\<close>

record PlaySession =
  ps_id :: jsstring
  ps_game_id :: jsstring
  ps_start_time :: jsstring
  ps_end_time :: jsstring
  ps_duration :: int

text \<open>
  The two tables. \<open>games\<close> has the primary key \<open>id\<close>; \<open>play_sessions\<close> has the primary
  key \<open>id\<close> and a foreign key \<open>game_id\<close> with \<open>ON DELETE CASCADE\<close>, which SQLite enforces
  only when the connection has foreign keys switched on: the switch is part of the state.
\<close>

record library =
  games :: "jsstring \<rightharpoonup> Game"
  play_sessions :: "PlaySession list"
  foreign_keys :: bool

text \<open>
  \<open>addGame\<close>: the row is inserted with \<open>total_playtime\<close> 0. The identifier (from
  \<open>crypto.randomUUID\<close>) and the time stamp are parameters. The insert fails on an
  identifier that is taken.
\<close>

definition addGame :: "library \<Rightarrow> jsstring \<Rightarrow> jsstring \<Rightarrow> GameFormData \<Rightarrow> error + library \<times> Game" where
  "addGame d gid now data =
     (if games d gid \<noteq> None then Inl (Error (str ''UNIQUE constraint failed: games.id''))
      else
        let row = \<lparr>g_id = gid, g_title = fd_title data, g_title_original = fd_title_original data,
              g_vndb_id = fd_vndb_id data, g_developer = fd_developer data,
              g_release_date = fd_release_date data, g_exe_path = fd_exe_path data,
              g_install_path = fd_install_path data, g_save_path = fd_save_path data,
              g_cover_path = fd_cover_path data, g_screenshots = fd_screenshots data,
              g_tags = fd_tags data, g_play_status = fd_play_status data,
              g_rating = fd_rating data, g_vndb_rating = fd_vndb_rating data,
              g_vndb_votecount = or_num (fd_vndb_votecount data) 0,
              g_length_minutes = or_num (fd_length_minutes data) 0,
              g_notes = fd_notes data, g_engine = fd_engine data, g_total_playtime = 0,
              g_created_at = now, g_updated_at = now\<rparr>
        in Inr (d\<lparr>games := (games d)(gid \<mapsto> row)\<rparr>, row))"

text \<open>
  \<open>updateGame\<close> takes a \<open>Partial<GameFormData>\<close>: one assignment per key that is present.
  The keys are those of \<open>GameFormData\<close>; the playtime is not among them.
\<close>

datatype assignment =
    SetTitle jsstring | SetTitleOriginal jsstring | SetVndbId jsstring | SetDeveloper jsstring
  | SetReleaseDate jsstring | SetExePath jsstring | SetInstallPath jsstring | SetSavePath jsstring
  | SetCoverPath jsstring | SetScreenshots "jsstring list" | SetTags "jsstring list"
  | SetPlayStatus PlayStatus | SetRating rat | SetVndbRating rat | SetVndbVotecount rat
  | SetLengthMinutes rat | SetNotes jsstring | SetEngine jsstring

fun assign :: "assignment \<Rightarrow> Game \<Rightarrow> Game" where
  "assign (SetTitle v) g = g\<lparr>g_title := v\<rparr>"
| "assign (SetTitleOriginal v) g = g\<lparr>g_title_original := v\<rparr>"
| "assign (SetVndbId v) g = g\<lparr>g_vndb_id := v\<rparr>"
| "assign (SetDeveloper v) g = g\<lparr>g_developer := v\<rparr>"
| "assign (SetReleaseDate v) g = g\<lparr>g_release_date := v\<rparr>"
| "assign (SetExePath v) g = g\<lparr>g_exe_path := v\<rparr>"
| "assign (SetInstallPath v) g = g\<lparr>g_install_path := v\<rparr>"
| "assign (SetSavePath v) g = g\<lparr>g_save_path := v\<rparr>"
| "assign (SetCoverPath v) g = g\<lparr>g_cover_path := v\<rparr>"
| "assign (SetScreenshots v) g = g\<lparr>g_screenshots := v\<rparr>"
| "assign (SetTags v) g = g\<lparr>g_tags := v\<rparr>"
| "assign (SetPlayStatus v) g = g\<lparr>g_play_status := v\<rparr>"
| "assign (SetRating v) g = g\<lparr>g_rating := v\<rparr>"
| "assign (SetVndbRating v) g = g\<lparr>g_vndb_rating := v\<rparr>"
| "assign (SetVndbVotecount v) g = g\<lparr>g_vndb_votecount := v\<rparr>"
| "assign (SetLengthMinutes v) g = g\<lparr>g_length_minutes := v\<rparr>"
| "assign (SetNotes v) g = g\<lparr>g_notes := v\<rparr>"
| "assign (SetEngine v) g = g\<lparr>g_engine := v\<rparr>"

definition updateGame ::
  "library \<Rightarrow> jsstring \<Rightarrow> assignment list \<Rightarrow> jsstring \<Rightarrow> library \<times> Game option" where
  "updateGame d gid data now =
     (case games d gid of
        None \<Rightarrow> (d, None)
      | Some g \<Rightarrow>
          let row = (fold assign data g)\<lparr>g_updated_at := now\<rparr>
          in (d\<lparr>games := (games d)(gid \<mapsto> row)\<rparr>, Some row))"

text \<open>\<open>deleteGame\<close>: with foreign keys on, the sessions of the game go with it.\<close>

definition deleteGame :: "library \<Rightarrow> jsstring \<Rightarrow> library" where
  "deleteGame d gid =
     d\<lparr>games := (games d)(gid := None),
       play_sessions :=
         (if foreign_keys d \<and> games d gid \<noteq> None
          then filter (\<lambda>s. ps_game_id s \<noteq> gid) (play_sessions d)
          else play_sessions d)\<rparr>"

text \<open>
  \<open>addPlaySession\<close>: the insert of the session row, then the update of the owning game.
  The insert fails on a session identifier that is taken and, with foreign keys on, on
  a game that does not exist; the update is not reached then.
\<close>

definition addPlaySession ::
  "library \<Rightarrow> jsstring \<Rightarrow> jsstring \<Rightarrow> jsstring \<Rightarrow> jsstring \<Rightarrow> int \<Rightarrow> jsstring
     \<Rightarrow> error + library" where
  "addPlaySession d sid gameId startTime endTime duration now =
     (if sid \<in> set (map ps_id (play_sessions d))
      then Inl (Error (str ''UNIQUE constraint failed: play_sessions.id''))
      else if foreign_keys d \<and> games d gameId = None
      then Inl (Error (str ''FOREIGN KEY constraint failed''))
      else
        let d1 = d\<lparr>play_sessions := play_sessions d @
                   [\<lparr>ps_id = sid, ps_game_id = gameId, ps_start_time = startTime,
                     ps_end_time = endTime, ps_duration = duration\<rparr>]\<rparr>
        in Inr (case games d1 gameId of
                  None \<Rightarrow> d1
                | Some g \<Rightarrow>
                    d1\<lparr>games := (games d1)(gameId \<mapsto>
                      g\<lparr>g_total_playtime := g_total_playtime g + duration,
                        g_updated_at := now\<rparr>)\<rparr>))"

text \<open>
  The operations that write the two tables, and a run of them. A call that fails leaves
  the store as it was.
\<close>

datatype store_op =
    AddGame jsstring jsstring GameFormData
  | UpdateGame jsstring "assignment list" jsstring
  | DeleteGame jsstring
  | AddPlaySession jsstring jsstring jsstring jsstring int jsstring

fun store_step :: "library \<Rightarrow> store_op \<Rightarrow> library" where
  "store_step d (AddGame gid now data) =
     (case addGame d gid now data of Inl e \<Rightarrow> d | Inr (d', g) \<Rightarrow> d')"
| "store_step d (UpdateGame gid data now) = fst (updateGame d gid data now)"
| "store_step d (DeleteGame gid) = deleteGame d gid"
| "store_step d (AddPlaySession sid gameId startTime endTime duration now) =
     (case addPlaySession d sid gameId startTime endTime duration now of
        Inl e \<Rightarrow> d | Inr d' \<Rightarrow> d')"

definition store_run :: "library \<Rightarrow> store_op list \<Rightarrow> library" where
  "store_run d ops = fold (\<lambda>op d. store_step d op) ops d"

text \<open>The sum of the stored session durations of a game, and its stored total.\<close>

definition session_seconds :: "library \<Rightarrow> jsstring \<Rightarrow> int" where
  "session_seconds d gid = sum_list (map ps_duration (filter (\<lambda>s. ps_game_id s = gid) (play_sessions d)))"

definition total_playtime :: "library \<Rightarrow> jsstring \<Rightarrow> int option" where
  "total_playtime d gid = map_option g_total_playtime (games d gid)"

text \<open>A run of session inserts for one game: identifier, start, end, duration and time stamp of each.\<close>

definition session_inserts ::
  "jsstring \<Rightarrow> (jsstring \<times> jsstring \<times> jsstring \<times> int \<times> jsstring) list \<Rightarrow> store_op list" where
  "session_inserts gameId xs =
     map (\<lambda>(sid, startTime, endTime, duration, now).
            AddPlaySession sid gameId startTime endTime duration now) xs"

text \<open>An empty store, a form, and three sessions of 60, 120 and 30 seconds for the examples.\<close>

definition empty_library :: library where
  "empty_library = \<lparr>games = Map.empty, play_sessions = [], foreign_keys = True\<rparr>"

definition form0 :: GameFormData where
  "form0 = \<lparr>fd_title = str ''Game A'', fd_title_original = [], fd_vndb_id = [], fd_developer = [],
     fd_release_date = [], fd_exe_path = str ''C:/a/a.exe'', fd_install_path = str ''C:/a'',
     fd_save_path = [], fd_cover_path = [], fd_screenshots = [], fd_tags = [],
     fd_play_status = unplayed, fd_rating = 0, fd_vndb_rating = 0, fd_vndb_votecount = None,
     fd_length_minutes = None, fd_notes = [], fd_engine = []\<rparr>"

definition sessions3 :: "(jsstring \<times> jsstring \<times> jsstring \<times> int \<times> jsstring) list" where
  "sessions3 =
     [(str ''s1'', str ''t1'', str ''t2'', 60, str ''t2''),
      (str ''s2'', str ''t3'', str ''t4'', 120, str ''t4''),
      (str ''s3'', str ''t5'', str ''t6'', 30, str ''t6'')]"

definition library1 :: library where
  "library1 = (case addGame empty_library (str ''g1'') (str ''t0'') form0 of
                 Inr (d, g) \<Rightarrow> d | Inl e \<Rightarrow> empty_library)"

section \<open>Import pipeline (the scan dialog and the match dialog)\<close>

text \<open>
  \<open>DetectedGame\<close> and the dialog's \<open>ImportItem\<close>. The optional \<open>error\<close> of an item is
  \<open>None\<close> when it is undefined.
\<close>

record DetectedGame =
  dg_title :: jsstring
  dg_exe_path :: jsstring
  dg_install_path :: jsstring
  dg_engine :: "jsstring option"

datatype item_status = Pending | Matching | Matched | Failed | Importing | Done

record ImportItem =
  it_detected :: DetectedGame
  it_vndb :: "VndbVn option"
  it_candidates :: "VndbVn list"
  it_coverPath :: jsstring
  it_screenshotPaths :: "jsstring list"
  it_translatedDesc :: jsstring
  it_translatedTags :: "jsstring list"
  it_status :: item_status
  it_error :: "jsstring option"

text \<open>
  What lies outside the program: the catalog (\<open>searchVn\<close> gives the normalised
  \<open>results\<close>, \<open>getVnById\<close> a record or \<open>null\<close>), the two download commands with their
  \<open>url\<close> and \<open>filename\<close>, and the two translation commands with the credential first.
  Each either fails with an error or returns.
\<close>

record world =
  searchVn :: "jsstring \<Rightarrow> error + VndbVn list"
  getVnById :: "jsstring \<Rightarrow> error + VndbVn option"
  download_cover :: "jsstring \<Rightarrow> jsstring \<Rightarrow> error + jsstring"
  download_screenshot :: "jsstring \<Rightarrow> jsstring \<Rightarrow> error + jsstring"
  deepseek_translate :: "jsstring \<Rightarrow> jsstring \<Rightarrow> error + jsstring"
  deepseek_translate_tags :: translator

subsection \<open>Enrichment of one record\<close>

text \<open>\<open>url.split(".").pop() || "jpg"\<close>: the text after the last full stop, or \<open>jpg\<close> if that is empty.\<close>

definition file_ext :: "jsstring \<Rightarrow> jsstring" where
  "file_ext url =
     (let e = rev (takeWhile (\<lambda>c. c \<noteq> 46) (rev url)) in if e = [] then str ''jpg'' else e)"

text \<open>The values of the fulfilled promises of \<open>Promise.allSettled\<close>, in order.\<close>

fun fulfilled :: "(error + 'a) list \<Rightarrow> 'a list" where
  "fulfilled [] = []"
| "fulfilled (Inr v # rs) = v # fulfilled rs"
| "fulfilled (Inl e # rs) = fulfilled rs"

definition coverPromise :: "world \<Rightarrow> VndbVn option \<Rightarrow> jsstring" where
  "coverPromise w vn =
     (case vn of
        None \<Rightarrow> []
      | Some v \<Rightarrow>
          (case vn_image v of
             None \<Rightarrow> []
           | Some im \<Rightarrow>
               if img_url im = [] then []
               else (case download_cover w (img_url im) (vn_id v @ str ''.'' @ file_ext (img_url im)) of
                       Inr path \<Rightarrow> path
                     | Inl e \<Rightarrow> [])))"

text \<open>
  The screenshot task. The same code stands in \<open>startMatching\<close>, in \<open>pickCandidate\<close> and
  in \<open>handleApply\<close> of the match dialog.
\<close>

definition safe_screenshots :: "VndbImage list \<Rightarrow> VndbImage list" where
  "safe_screenshots shots = slice0 4 (filter (\<lambda>s. img_sexual s < 1 \<and> img_violence s < 1) shots)"

definition screenshot_request :: "world \<Rightarrow> VndbImage \<Rightarrow> error + jsstring" where
  "screenshot_request w ss =
     download_screenshot w (img_url ss) (img_id ss @ str ''.'' @ file_ext (img_url ss))"

definition screenshotsPromise :: "world \<Rightarrow> VndbVn option \<Rightarrow> jsstring list" where
  "screenshotsPromise w vn =
     (case vn of
        None \<Rightarrow> []
      | Some v \<Rightarrow>
          if vn_screenshots v = [] then []
          else fulfilled (map (screenshot_request w) (safe_screenshots (vn_screenshots v))))"

text \<open>\<open>translateDescription\<close> of lib/deepseek.ts.\<close>

definition translateDescription :: "world \<Rightarrow> jsstring \<Rightarrow> jsstring \<Rightarrow> error + jsstring" where
  "translateDescription w text apiKey =
     (if trim text = [] \<or> trim apiKey = [] then Inr text
      else
        let cleaned = cleanVndbMarkup text
        in if cleaned = [] then Inr []
           else
             let truncated = (if length cleaned > 3000 then take 3000 cleaned @ str ''...''
                              else cleaned)
             in deepseek_translate w apiKey truncated)"

definition descPromise :: "world \<Rightarrow> jsstring \<Rightarrow> VndbVn option \<Rightarrow> jsstring" where
  "descPromise w apiKey vn =
     (case vn of
        None \<Rightarrow> []
      | Some v \<Rightarrow>
          (case vn_description v of
             None \<Rightarrow> []
           | Some d \<Rightarrow>
               if d = [] then []
               else if apiKey \<noteq> [] then
                 (case translateDescription w d apiKey of
                    Inr r \<Rightarrow> r
                  | Inl e \<Rightarrow> cleanDescription (Some d))
               else cleanDescription (Some d)))"

text \<open>
  The tag task returns the tags and the cache table it leaves. Its handler for a
  rejected \<open>translateTags\<close> has no branch here: in this model \<open>translateTags\<close> always
  returns.
\<close>

definition tagsPromise ::
  "world \<Rightarrow> tag_cache \<Rightarrow> jsstring \<Rightarrow> VndbVn option \<Rightarrow> jsstring list \<times> tag_cache" where
  "tagsPromise w db apiKey vn =
     (case vn of
        None \<Rightarrow> ([], db)
      | Some v \<Rightarrow>
          let vndbTags = extractTags (vn_tags v) 0 8
          in if apiKey \<noteq> [] \<and> vndbTags \<noteq> [] then
               let r = translateTags (deepseek_translate_tags w) db vndbTags apiKey
               in (tr_tags r, tr_db r)
             else (vndbTags, db))"

subsection \<open>Bulk matching\<close>

text \<open>The messages of the dialog, in code units: no match found, match failed, skipped by hand.\<close>

definition MSG_NO_MATCH :: jsstring where
  "MSG_NO_MATCH = [86, 78, 68, 66, 32, 26410, 25214, 21040, 21305, 37197]"

definition MSG_MATCH_FAILED :: jsstring where
  "MSG_MATCH_FAILED = [21305, 37197, 22833, 36133, 58, 32]"

definition MSG_MANUALLY_SKIPPED :: jsstring where
  "MSG_MANUALLY_SKIPPED = [25163, 21160, 36339, 36807]"

text \<open>
  The \<open>try\<close> block of \<open>startMatching\<close> up to the choice of the record: the search, and
  for a non-empty result the detail of the first candidate, the candidate itself
  standing in when the detail is \<open>null\<close>. An exception of either call leaves the block.
\<close>

definition find_match :: "world \<Rightarrow> jsstring \<Rightarrow> error + (VndbVn option \<times> VndbVn list)" where
  "find_match w title =
     (case searchVn w title of
        Inl e \<Rightarrow> Inl e
      | Inr candidates \<Rightarrow>
          (case candidates of
             [] \<Rightarrow> Inr (None, candidates)
           | c # _ \<Rightarrow>
               (case getVnById w (vn_id c) of
                  Inl e \<Rightarrow> Inl e
                | Inr None \<Rightarrow> Inr (Some c, candidates)
                | Inr (Some detail) \<Rightarrow> Inr (Some detail, candidates))))"

text \<open>
  One round of the loop for one item: the status \<open>matching\<close>, then the \<open>try\<close> block with
  the four tasks joined by \<open>Promise.all\<close> (none of them rejects), or the \<open>catch\<close> block
  with the rendering of the exception.
\<close>

definition match_item ::
  "world \<Rightarrow> jsstring \<Rightarrow> tag_cache \<Rightarrow> ImportItem \<Rightarrow> ImportItem \<times> tag_cache" where
  "match_item w apiKey db item =
     (let it = item\<lparr>it_status := Matching\<rparr>
      in case find_match w (dg_title (it_detected item)) of
           Inl (Error err) \<Rightarrow>
             (it\<lparr>it_status := Failed, it_error := Some (MSG_MATCH_FAILED @ err)\<rparr>, db)
         | Inr (vn, candidates) \<Rightarrow>
             let coverPath = coverPromise w vn;
                 screenshotPaths = screenshotsPromise w vn;
                 translatedDesc = descPromise w apiKey vn;
                 (translatedTags, db') = tagsPromise w db apiKey vn
             in (it\<lparr>it_vndb := vn, it_candidates := candidates, it_coverPath := coverPath,
                    it_screenshotPaths := screenshotPaths, it_translatedDesc := translatedDesc,
                    it_translatedTags := translatedTags,
                    it_status := (if vn \<noteq> None then Matched else Failed),
                    it_error := (if vn \<noteq> None then None else Some MSG_NO_MATCH)\<rparr>, db'))"

text \<open>
  The state of the dialog with the cache table, and a log of what the loop awaits in
  sequence: the search of an item and the pause \<open>setTimeout(r, 500)\<close>.
\<close>

datatype phase = Select | MatchingPhase | Review | ImportingPhase

datatype event = Search jsstring | Delay nat

record scan_state =
  ss_items :: "ImportItem list"
  ss_phase :: phase
  ss_activeIdx :: "nat option"
  ss_cache :: tag_cache
  ss_log :: "event list"

text \<open>\<open>prev.map((it, idx) => idx === i ? f(it) : it)\<close>.\<close>

definition map_at :: "nat \<Rightarrow> ('a \<Rightarrow> 'a) \<Rightarrow> 'a list \<Rightarrow> 'a list" where
  "map_at i f xs = (if i < length xs then xs[i := f (xs ! i)] else xs)"

text \<open>
  The body of \<open>for (let i = 0; i < total; i++)\<close>. The world may answer differently from
  one round to the next, so it is given per round. The pause follows unless the item is
  the last one (\<open>i < total - 1\<close>, with \<open>total\<close> at least 1; \<open>total\<close> is \<open>total_items\<close> here).
\<close>

definition matching_round ::
  "(nat \<Rightarrow> world) \<Rightarrow> jsstring \<Rightarrow> nat \<Rightarrow> nat \<Rightarrow> scan_state \<Rightarrow> scan_state" where
  "matching_round w apiKey total_items i st =
     (if i < length (ss_items st) then
        let item = ss_items st ! i;
            (item', db') = match_item (w i) apiKey (ss_cache st) item;
            st1 = st\<lparr>ss_items := map_at i (\<lambda>it. item') (ss_items st), ss_cache := db',
                    ss_log := ss_log st @ [Search (dg_title (it_detected item))]\<rparr>
        in if i + 1 < total_items then st1\<lparr>ss_log := ss_log st1 @ [Delay 500]\<rparr> else st1
      else st)"

definition startMatching :: "(nat \<Rightarrow> world) \<Rightarrow> jsstring \<Rightarrow> scan_state \<Rightarrow> scan_state" where
  "startMatching w apiKey st =
     (if ss_items st = [] then st
      else
        let total_items = length (ss_items st);
            st1 = fold (matching_round w apiKey total_items) [0..<total_items] (st\<lparr>ss_phase := MatchingPhase\<rparr>)
        in st1\<lparr>ss_phase := Review, ss_activeIdx := Some 0\<rparr>)"

subsection \<open>Review and commit\<close>

definition clearMatch :: "scan_state \<Rightarrow> scan_state" where
  "clearMatch st =
     (case ss_activeIdx st of
        None \<Rightarrow> st
      | Some activeIdx \<Rightarrow>
          st\<lparr>ss_items :=
              map_at activeIdx
                (\<lambda>it. it\<lparr>it_vndb := None, it_coverPath := [], it_status := Failed,
                         it_error := Some MSG_MANUALLY_SKIPPED\<rparr>)
                (ss_items st)\<rparr>)"

text \<open>\<open>names.join(", ")\<close>.\<close>

fun join_comma :: "jsstring list \<Rightarrow> jsstring" where
  "join_comma [] = []"
| "join_comma [x] = x"
| "join_comma (x # y # ys) = x @ str '', '' @ join_comma (y # ys)"

text \<open>\<open>formatVndbDate\<close>.\<close>

definition formatVndbDate :: "jsstring option \<Rightarrow> jsstring" where
  "formatVndbDate date =
     (case date of None \<Rightarrow> [] | Some d \<Rightarrow> if d = [] \<or> d = str ''TBA'' then [] else d)"

text \<open>The record that \<open>handleImport\<close> builds for one item.\<close>

definition import_record :: "ImportItem \<Rightarrow> GameFormData" where
  "import_record item =
     (let vn = it_vndb item;
          developer = (case vn of
                         None \<Rightarrow> []
                       | Some v \<Rightarrow> if vn_developers v \<noteq> [] then join_comma (map prod_name (vn_developers v))
                                   else []);
          vndbTags = (case vn of None \<Rightarrow> [] | Some v \<Rightarrow> extractTags (vn_tags v) 0 8);
          allTags = (if it_translatedTags item \<noteq> [] then it_translatedTags item else vndbTags)
      in \<lparr>fd_title = (case vn of Some v \<Rightarrow> pickDisplayTitle v | None \<Rightarrow> dg_title (it_detected item)),
          fd_title_original = (case vn of Some v \<Rightarrow> pickOriginalTitle v | None \<Rightarrow> []),
          fd_vndb_id = (case vn of Some v \<Rightarrow> vn_id v | None \<Rightarrow> []),
          fd_developer = developer,
          fd_release_date = (case vn of Some v \<Rightarrow> formatVndbDate (vn_released v) | None \<Rightarrow> []),
          fd_exe_path = dg_exe_path (it_detected item),
          fd_install_path = dg_install_path (it_detected item),
          fd_save_path = [],
          fd_cover_path = it_coverPath item,
          fd_screenshots = it_screenshotPaths item,
          fd_tags = allTags,
          fd_play_status = unplayed,
          fd_rating = 0,
          fd_vndb_rating = (case vn of Some v \<Rightarrow> or_num (vn_rating v) 0 | None \<Rightarrow> 0),
          fd_vndb_votecount = None,
          fd_length_minutes = None,
          fd_notes = (if it_translatedDesc item \<noteq> [] then it_translatedDesc item
                      else (case vn of
                              None \<Rightarrow> []
                            | Some v \<Rightarrow>
                                (case vn_description v of
                                   None \<Rightarrow> []
                                 | Some d \<Rightarrow> if d = [] then [] else cleanDescription (Some d)))),
          fd_engine = or_str (dg_engine (it_detected item)) []\<rparr>)"

text \<open>\<open>handleImport\<close>: the phase, and the batch handed to \<open>onImport\<close>.\<close>

definition handleImport :: "scan_state \<Rightarrow> scan_state \<times> GameFormData list" where
  "handleImport st = (st\<lparr>ss_phase := ImportingPhase\<rparr>, map import_record (ss_items st))"

text \<open>The items that \<open>handleAddFolders\<close> makes of the detected games.\<close>

definition new_item :: "DetectedGame \<Rightarrow> ImportItem" where
  "new_item g = \<lparr>it_detected = g, it_vndb = None, it_candidates = [], it_coverPath = [],
     it_screenshotPaths = [], it_translatedDesc = [], it_translatedTags = [],
     it_status = Pending, it_error = None\<rparr>"

text \<open>The log of a batch: one search per item, a pause between two items.\<close>

fun paused :: "event list \<Rightarrow> event list" where
  "paused [] = []"
| "paused [e] = [e]"
| "paused (e # e' # es) = e # Delay 500 # paused (e' # es)"

subsection \<open>A catalog record and a world for the examples\<close>

definition shot :: "string \<Rightarrow> rat \<Rightarrow> rat \<Rightarrow> VndbImage" where
  "shot name sexual violence =
     \<lparr>img_id = str name, img_url = str ''https://t.vndb.org/sf/'' @ str name @ str ''.jpg'',
      img_dims = (1280, 720), img_sexual = sexual, img_violence = violence\<rparr>"

text \<open>Six screenshots, the third one not safe; the first four safe ones are downloaded.\<close>

definition vn_demo :: VndbVn where
  "vn_demo =
     \<lparr>vn_id = str ''v17'', vn_title = str ''Game A'', vn_alttitle = None, vn_titles = [],
      vn_released = Some (str ''2020-01-01''), vn_image = None,
      vn_screenshots = [shot ''sf1'' 0 0, shot ''sf2'' 0 0, shot ''sfx'' (3 / 2) 0,
                        shot ''sf3'' 0 0, shot ''sf4'' 0 (1 / 2), shot ''sf5'' 0 0],
      vn_olang = str ''ja'', vn_languages = [], vn_platforms = [], vn_rating = Some 80,
      vn_votecount = 10, vn_length_minutes = None, vn_description = Some (str ''A story.''),
      vn_tags = [\<lparr>tag_id = str ''g7'', tag_name = str ''Romance'', tag_rating = 2,
                  tag_spoiler = 0, tag_category = str ''cont''\<rparr>],
      vn_developers = []\<rparr>"

text \<open>
  A world in which the catalog knows the record under every title, the download of the
  second screenshot fails, and every other call succeeds.
\<close>

definition demo_world :: world where
  "demo_world =
     \<lparr>searchVn = (\<lambda>query. Inr [vn_demo]),
      getVnById = (\<lambda>vnId. Inr (Some vn_demo)),
      download_cover = (\<lambda>url filename. Inr (str ''covers/'' @ filename)),
      download_screenshot = (\<lambda>url filename.
         if filename = str ''sf2.jpg'' then Inl (Error (str ''timeout''))
         else Inr (str ''shots/'' @ filename)),
      deepseek_translate = (\<lambda>apiKey text. Inr (str ''zh:'' @ text)),
      deepseek_translate_tags = prefixing_translator\<rparr>"

text \<open>A world in which the catalog cannot be reached.\<close>

definition offline_world :: world where
  "offline_world = demo_world\<lparr>searchVn := (\<lambda>query. Inl (Error (str ''Error: offline'')))\<rparr>"

text \<open>A world in which the catalog answers with no result.\<close>

definition empty_world :: world where
  "empty_world = demo_world\<lparr>searchVn := (\<lambda>query. Inr [])\<rparr>"

definition detected :: "string \<Rightarrow> DetectedGame" where
  "detected name = \<lparr>dg_title = str name, dg_exe_path = str ''C:/games/'' @ str name @ str ''/game.exe'',
     dg_install_path = str ''C:/games/'' @ str name, dg_engine = None\<rparr>"

definition scan0 :: "ImportItem list \<Rightarrow> scan_state" where
  "scan0 its = \<lparr>ss_items = its, ss_phase = Select, ss_activeIdx = None, ss_cache = Map.empty,
     ss_log = []\<rparr>"

text \<open>Three detected games, and a world per round: the record is found, the catalog cannot be reached, nothing is found.\<close>

definition items3 :: "ImportItem list" where
  "items3 = [new_item (detected ''A''), new_item (detected ''B''), new_item (detected ''C'')]"

definition demo_rounds :: "nat \<Rightarrow> world" where
  "demo_rounds i = (if i = 0 then demo_world else if i = 1 then offline_world else empty_world)"

text \<open>What one round appends to the log.\<close>

definition round_events :: "nat \<Rightarrow> event list \<Rightarrow> nat \<Rightarrow> event list" where
  "round_events n es i = es ! i # (if i + 1 < n then [Delay 500] else [])"

text \<open>
  One detected game is matched by bulk matching (no translation credential is stored),
  then its match is cleared in the review, the first item being the active one.
\<close>

definition demo_matched :: scan_state where
  "demo_matched = startMatching (\<lambda>i. demo_world) [] (scan0 [new_item (detected ''A'')])"

definition demo_cleared :: scan_state where
  "demo_cleared = clearMatch demo_matched"


section \<open>Properties of the catalog client\<close>

subsection \<open>Tag extraction\<close>

lemma insort_by_key:
  "insort_by (\<lambda>a b. f b - f a) x ys = insort_key (\<lambda>t. - f t) x ys"
  by (induction ys) auto

lemma js_sort_sort_key:
  "js_sort (\<lambda>a b. f b - f a) xs = sort_key (\<lambda>t. - f t) xs"
  unfolding js_sort_def sort_key_def by (induction xs) (auto simp: insort_by_key)

text \<open>
  Claim C4: with the default threshold 0 and the default count 8, \<open>extractTags\<close>
  returns the names of exactly the tags with spoiler level at most 0, a category other
  than the adult one (the catalog's \<open>ero\<close>) and rating at least 1.5, in descending
  order of rating, cut to the first 8: the result has \<open>min 8 k\<close> entries for \<open>k\<close> kept
  tags, all of them kept tags, and no kept tag that was cut has a higher rating than one
  returned.
\<close>

theorem extractTags_default_rule:
  "\<exists>ys. extractTags tags 0 8 = map tag_name ys
     \<and> ys = take 8 (sort_key (\<lambda>t. - tag_rating t) (filter code_keeps tags))
     \<and> length ys = min 8 (length (filter code_keeps tags))
     \<and> mset ys \<subseteq># mset (filter code_keeps tags)
     \<and> sorted_wrt (\<lambda>a b. tag_rating b \<le> tag_rating a) ys
     \<and> (\<forall>a \<in> set ys. \<forall>b \<in> set (drop 8 (sort_key (\<lambda>t. - tag_rating t) (filter code_keeps tags))).
           tag_rating b \<le> tag_rating a)"
proof -
  let ?kept = "filter code_keeps tags"
  let ?s = "sort_key (\<lambda>t. - tag_rating t) ?kept"
  let ?ys = "take 8 ?s"
  have code: "extractTags tags 0 8 = map tag_name ?ys"
    by (simp add: extractTags_def slice0_def js_sort_sort_key code_keeps_def[abs_def])
  have len: "length ?ys = min 8 (length ?kept)" by simp
  have sub: "mset ?ys \<subseteq># mset ?kept"
    by (metis append_take_drop_id mset_append mset_sort mset_subset_eq_add_left)
  have sorted_all: "sorted_wrt (\<lambda>a b. tag_rating b \<le> tag_rating a) ?s"
    using sorted_sort_key [of "\<lambda>t. - tag_rating t" ?kept] by (simp add: sorted_wrt_map)
  then have "sorted_wrt (\<lambda>a b. tag_rating b \<le> tag_rating a) (?ys @ drop 8 ?s)" by simp
  then have srt: "sorted_wrt (\<lambda>a b. tag_rating b \<le> tag_rating a) ?ys"
    and rest: "\<forall>a \<in> set ?ys. \<forall>b \<in> set (drop 8 ?s). tag_rating b \<le> tag_rating a"
    unfolding sorted_wrt_append by blast+
  from code len sub srt rest show ?thesis by blast
qed

theorem extractTags_default_rule_witness:
  "extractTags tags12 0 8 = [[108], [107], [106], [105], [104], [103], [102], [100]]"
proof -
  from extractTags_default_rule [of tags12] obtain ys where
    "extractTags tags12 0 8 = map tag_name ys"
    "ys = take 8 (sort_key (\<lambda>t. - tag_rating t) (filter code_keeps tags12))" by blast
  then show ?thesis by (simp add: tags12_def code_keeps_def str_def)
qed

subsection \<open>Title selection\<close>










section \<open>Properties of the translation cache gateway\<close>

lemma getTagTranslations_in: "t \<in> set tags \<Longrightarrow> getTagTranslations db tags t = db t"
  by (auto simp: getTagTranslations_def)

lemma uncached_filter:
  "filter (\<lambda>t. getTagTranslations db tags t = None) tags = uncached_of db tags"
  unfolding uncached_of_def by (rule filter_cong) (auto simp: getTagTranslations_in)

lemma map_from_cache:
  "map (\<lambda>t. or_str (getTagTranslations db tags t) t) tags = from_cache db tags"
  unfolding from_cache_def by (rule map_cong) (auto simp: getTagTranslations_in)

lemma fold_upd_eq:
  "fold (\<lambda>(k, v) d. d(k \<mapsto> v)) ps m k =
     (case map_of (rev ps) k of Some v \<Rightarrow> Some v | None \<Rightarrow> m k)"
  by (induction ps arbitrary: m) (auto simp: map_add_def split: option.splits)

lemma cached_set_loop_fold:
  "cached_set_loop us ts m = fold (\<lambda>(k, v) d. d(k \<mapsto> v)) (zip us ts) m"
  by (induction us ts m rule: cached_set_loop.induct) (simp_all del: fun_upd_apply)

lemma cached_set_loop_eq:
  "cached_set_loop us ts m k =
     (case map_of (rev (zip us ts)) k of Some v \<Rightarrow> Some v | None \<Rightarrow> m k)"
  by (simp add: cached_set_loop_fold fold_upd_eq)


text \<open>\<open>translateTags\<close> in terms of the batch sent out and the answer from the cache alone.\<close>

lemma translateTags_unfold:
  "translateTags trl db tags apiKey =
     (if uncached_of db tags \<noteq> [] \<and> trim apiKey \<noteq> [] then
        (case trl apiKey (uncached_of db tags) of
           Inr translated \<Rightarrow>
             if length translated = length (uncached_of db tags) then
               \<lparr>tr_tags = map (\<lambda>t. or_str (cached_set_loop (uncached_of db tags) translated
                                             (getTagTranslations db tags) t) t) tags,
                 tr_db = setTagTranslations db (zip (uncached_of db tags) translated),
                 tr_calls = [(apiKey, uncached_of db tags)]\<rparr>
             else \<lparr>tr_tags = from_cache db tags, tr_db = db, tr_calls = [(apiKey, uncached_of db tags)]\<rparr>
         | Inl e \<Rightarrow> \<lparr>tr_tags = from_cache db tags, tr_db = db, tr_calls = [(apiKey, uncached_of db tags)]\<rparr>)
      else \<lparr>tr_tags = from_cache db tags, tr_db = db, tr_calls = []\<rparr>)"
proof (cases "tags = []")
  case True
  then show ?thesis by (simp add: translateTags_def uncached_of_def from_cache_def)
next
  case False
  then show ?thesis
    by (simp add: translateTags_def Let_def uncached_filter map_from_cache split: sum.splits)
qed

lemma map_of_rev_zip_SomeD:
  "map_of (rev (zip us ts)) k = Some v \<Longrightarrow> \<exists>j. j < length us \<and> j < length ts \<and> us ! j = k \<and> ts ! j = v"
proof -
  assume "map_of (rev (zip us ts)) k = Some v"
  then have "(k, v) \<in> set (zip us ts)" by (auto dest: map_of_SomeD)
  then show ?thesis by (auto simp: in_set_zip)
qed

lemma merged_value:
  assumes "t \<in> set tags"
  shows "or_str (cached_set_loop (uncached_of db tags) translated (getTagTranslations db tags) t) t = t
    \<or> db t = Some (or_str (cached_set_loop (uncached_of db tags) translated (getTagTranslations db tags) t) t)
    \<or> (\<exists>j. j < length (uncached_of db tags) \<and> j < length translated \<and> uncached_of db tags ! j = t
           \<and> translated ! j = or_str (cached_set_loop (uncached_of db tags) translated (getTagTranslations db tags) t) t)"
proof (cases "map_of (rev (zip (uncached_of db tags) translated)) t")
  case None
  then show ?thesis using assms
    by (auto simp: cached_set_loop_eq getTagTranslations_in or_str_def split: option.splits)
next
  case (Some v)
  from map_of_rev_zip_SomeD [OF this] Some show ?thesis
    by (auto simp: cached_set_loop_eq or_str_def)
qed

lemma from_cache_value:
  "or_str (db t) t = t \<or> db t = Some (or_str (db t) t)"
  by (auto simp: or_str_def split: option.splits)

text \<open>
  Claim C3: for every tag list, credential, cache table and behaviour of the external
  translator, the list \<open>translateTags\<close> returns has the length of the input, and at
  every position it holds the tag of that position, or the cached value of that tag, or
  a value the translator returned for that very tag in the batch. No value moves to the
  position of another tag.
\<close>

theorem translateTags_positions:
  "length (tr_tags (translateTags trl db tags apiKey)) = length tags
   \<and> (\<forall>i < length tags.
        tr_tags (translateTags trl db tags apiKey) ! i = tags ! i
        \<or> db (tags ! i) = Some (tr_tags (translateTags trl db tags apiKey) ! i)
        \<or> (\<exists>translated j. trl apiKey (uncached_of db tags) = Inr translated
              \<and> j < length translated \<and> j < length (uncached_of db tags)
              \<and> uncached_of db tags ! j = tags ! i
              \<and> translated ! j = tr_tags (translateTags trl db tags apiKey) ! i))"
proof -
  let ?r = "translateTags trl db tags apiKey"
  have len: "length (tr_tags ?r) = length tags"
    by (simp add: translateTags_unfold from_cache_def split: sum.splits)
  have pos: "tr_tags ?r ! i = tags ! i
        \<or> db (tags ! i) = Some (tr_tags ?r ! i)
        \<or> (\<exists>translated j. trl apiKey (uncached_of db tags) = Inr translated
              \<and> j < length translated \<and> j < length (uncached_of db tags)
              \<and> uncached_of db tags ! j = tags ! i
              \<and> translated ! j = tr_tags ?r ! i)" if i: "i < length tags" for i
  proof -
    from i have mem: "tags ! i \<in> set tags" by simp
    have "tr_tags ?r = from_cache db tags
      \<or> (\<exists>translated. trl apiKey (uncached_of db tags) = Inr translated
          \<and> tr_tags ?r = map (\<lambda>t. or_str (cached_set_loop (uncached_of db tags) translated
                                             (getTagTranslations db tags) t) t) tags)"
      by (cases "trl apiKey (uncached_of db tags)") (simp_all add: translateTags_unfold)
    then consider (plain) "tr_tags ?r = from_cache db tags"
      | (merged) translated where "trl apiKey (uncached_of db tags) = Inr translated"
          "tr_tags ?r = map (\<lambda>t. or_str (cached_set_loop (uncached_of db tags) translated
                                             (getTagTranslations db tags) t) t) tags"
      by blast
    then show ?thesis
    proof cases
      case plain
      with i have "tr_tags ?r ! i = or_str (db (tags ! i)) (tags ! i)" by (simp add: from_cache_def)
      with from_cache_value [of db "tags ! i"] show ?thesis by metis
    next
      case merged
      with i have "tr_tags ?r ! i = or_str (cached_set_loop (uncached_of db tags) translated
                                             (getTagTranslations db tags) (tags ! i)) (tags ! i)" by simp
      with merged(1) merged_value [OF mem, of db translated] show ?thesis by metis
    qed
  qed
  from len pos show ?thesis by blast
qed

text \<open>
  Claim C10: when the translator returns a list whose length differs from the length of
  the uncached batch, the cache table is left as it was, the result is what the cache
  alone gives, and every tag the cache does not hold comes back as its own text.
  Conversely the table changes, or the result departs from what the cache alone gives,
  only after one external call that returned a list of exactly the batch's length.
\<close>

theorem translateTags_length_guard:
  "(trl apiKey (uncached_of db tags) = Inr translated
      \<and> length translated \<noteq> length (uncached_of db tags)
     \<longrightarrow> tr_db (translateTags trl db tags apiKey) = db
       \<and> tr_tags (translateTags trl db tags apiKey) = from_cache db tags
       \<and> (\<forall>i < length tags. db (tags ! i) = None
            \<longrightarrow> tr_tags (translateTags trl db tags apiKey) ! i = tags ! i))
   \<and> (tr_db (translateTags trl db tags apiKey) \<noteq> db
        \<or> tr_tags (translateTags trl db tags apiKey) \<noteq> from_cache db tags
     \<longrightarrow> (\<exists>returned. trl apiKey (uncached_of db tags) = Inr returned
            \<and> length returned = length (uncached_of db tags)
            \<and> tr_calls (translateTags trl db tags apiKey) = [(apiKey, uncached_of db tags)]))"
proof -
  let ?r = "translateTags trl db tags apiKey"
  have a: "tr_db ?r = db \<and> tr_tags ?r = from_cache db tags"
    if "trl apiKey (uncached_of db tags) = Inr translated"
      "length translated \<noteq> length (uncached_of db tags)"
    using that by (simp add: translateTags_unfold)
  have b: "tr_tags ?r ! i = tags ! i"
    if "tr_tags ?r = from_cache db tags" "i < length tags" "db (tags ! i) = None" for i
    using that by (simp add: from_cache_def or_str_def)
  have c: "\<exists>returned. trl apiKey (uncached_of db tags) = Inr returned
            \<and> length returned = length (uncached_of db tags)
            \<and> tr_calls ?r = [(apiKey, uncached_of db tags)]"
    if "tr_db ?r \<noteq> db \<or> tr_tags ?r \<noteq> from_cache db tags"
    using that by (auto simp: translateTags_unfold split: sum.splits if_splits)
  from a b c show ?thesis by blast
qed





theorem translateTags_positions_witness:
  "length (tr_tags (translateTags prefixing_translator cache_b tags_abc api_key)) = 3
   \<and> tr_tags (translateTags prefixing_translator cache_b tags_abc api_key)
       = [str ''zh:a'', str ''B'', str ''zh:c'']
   \<and> cache_b (tags_abc ! 1) = Some (str ''B'')
   \<and> uncached_of cache_b tags_abc = [str ''a'', str ''c'']"
  using translateTags_positions [of prefixing_translator cache_b tags_abc api_key]
  by (simp add: translateTags_def Let_def getTagTranslations_def prefixing_translator_def
      cache_b_def tags_abc_def api_key_def uncached_of_def or_str_def trim_def is_ws_def
      setTagTranslations_def str_def)

theorem translateTags_length_guard_witness:
  "short_translator api_key (uncached_of cache_b tags_abc) = Inr [str ''zh:c'']
   \<and> length [str ''zh:c''] \<noteq> length (uncached_of cache_b tags_abc)
   \<and> tr_tags (translateTags short_translator cache_b tags_abc api_key)
       = [str ''a'', str ''B'', str ''c'']
   \<and> tr_db (translateTags short_translator cache_b tags_abc api_key) = cache_b
   \<and> tr_db (translateTags prefixing_translator cache_b tags_abc api_key) (str ''a'') = Some (str ''zh:a'')
   \<and> tr_calls (translateTags prefixing_translator cache_b tags_abc api_key)
       = [(api_key, [str ''a'', str ''c''])]"
proof -
  have h: "short_translator api_key (uncached_of cache_b tags_abc) = Inr [str ''zh:c'']
      \<and> length [str ''zh:c''] \<noteq> length (uncached_of cache_b tags_abc)"
    by (simp add: short_translator_def uncached_of_def cache_b_def tags_abc_def str_def)
  have fc: "from_cache cache_b tags_abc = [str ''a'', str ''B'', str ''c'']"
    by (simp add: from_cache_def cache_b_def tags_abc_def or_str_def str_def)
  have ch: "tr_db (translateTags prefixing_translator cache_b tags_abc api_key) (str ''a'') = Some (str ''zh:a'')"
    by (simp add: translateTags_def Let_def getTagTranslations_def prefixing_translator_def
      cache_b_def tags_abc_def api_key_def or_str_def trim_def is_ws_def
      setTagTranslations_def str_def)
  then have "tr_db (translateTags prefixing_translator cache_b tags_abc api_key) \<noteq> cache_b"
    by (auto simp: cache_b_def str_def)
  with translateTags_length_guard [of prefixing_translator api_key cache_b tags_abc "[]"]
  have calls: "tr_calls (translateTags prefixing_translator cache_b tags_abc api_key)
       = [(api_key, uncached_of cache_b tags_abc)]" by blast
  have u: "uncached_of cache_b tags_abc = [str ''a'', str ''c'']"
    by (simp add: uncached_of_def cache_b_def tags_abc_def str_def)
  from translateTags_length_guard [of short_translator api_key cache_b tags_abc "[str ''zh:c'']"] h
  have "tr_db (translateTags short_translator cache_b tags_abc api_key) = cache_b
       \<and> tr_tags (translateTags short_translator cache_b tags_abc api_key) = from_cache cache_b tags_abc"
    by blast
  with h fc ch calls u show ?thesis by simp
qed



section \<open>Properties of markup cleaning\<close>

lemma match_at_no_bracket: "c \<noteq> 91 \<Longrightarrow> match_at re (c # s) = None"
  by (cases re) (auto simp: match_at.simps str_def canon_def split: option.splits)

lemma skip_char: "c \<noteq> 91 \<Longrightarrow> replace_all re f (c # s) = c # replace_all re f s"
  by (simp add: replace_all.simps match_at_no_bracket)

lemma skip_text: "91 \<notin> set t \<Longrightarrow> replace_all re f (t @ s) = t @ replace_all re f s"
  by (induction t) (auto simp: skip_char)











































section \<open>Properties of the library store\<close>

lemma assign_total: "g_total_playtime (assign a g) = g_total_playtime g"
  by (cases a) simp_all

lemma fold_assign_total: "g_total_playtime (fold assign as g) = g_total_playtime g"
  by (induction as arbitrary: g) (simp_all add: assign_total)

lemma addGame_total:
  "addGame d gid now data = Inr (d1, g) \<Longrightarrow> total_playtime d1 gid = Some 0"
  by (auto simp: addGame_def total_playtime_def Let_def split: if_splits)

lemma addPlaySession_own:
  assumes "addPlaySession d sid gid st en dur now = Inr d'" "games d gid \<noteq> None"
  shows "total_playtime d' gid = map_option (\<lambda>t. t + dur) (total_playtime d gid)"
    and "play_sessions d' = play_sessions d @
           [\<lparr>ps_id = sid, ps_game_id = gid, ps_start_time = st, ps_end_time = en, ps_duration = dur\<rparr>]"
    and "session_seconds d' gid = session_seconds d gid + dur"
  using assms
  by (auto simp: addPlaySession_def total_playtime_def session_seconds_def Let_def split: if_splits)

lemma step_other:
  assumes "games d gid \<noteq> None" "op \<noteq> DeleteGame gid"
    "\<forall>sid st en dur now. op \<noteq> AddPlaySession sid gid st en dur now"
  shows "total_playtime (store_step d op) gid = total_playtime d gid"
proof (cases op)
  case (AddGame g' now data)
  with assms show ?thesis
    by (auto simp: addGame_def total_playtime_def Let_def split: if_splits)
next
  case (UpdateGame g' as now)
  with assms show ?thesis
    by (auto simp: updateGame_def total_playtime_def Let_def fold_assign_total split: option.splits)
next
  case (DeleteGame g')
  with assms show ?thesis by (auto simp: deleteGame_def total_playtime_def)
next
  case (AddPlaySession sid g' st en dur now)
  with assms have "g' \<noteq> gid" by auto
  with AddPlaySession show ?thesis
    by (auto simp: addPlaySession_def total_playtime_def Let_def split: option.splits)
qed

text \<open>The difference between the stored total and the stored sessions of a game is kept by every step.\<close>

lemma step_balance:
  assumes "games d gid = Some row" "op \<noteq> DeleteGame gid"
  shows "\<exists>row'. games (store_step d op) gid = Some row'
     \<and> g_total_playtime row' - session_seconds (store_step d op) gid
        = g_total_playtime row - session_seconds d gid"
proof (cases op)
  case (AddGame g' now data)
  with assms show ?thesis
    by (auto simp: addGame_def session_seconds_def Let_def split: if_splits)
next
  case (UpdateGame g' as now)
  with assms show ?thesis
    by (auto simp: updateGame_def session_seconds_def Let_def fold_assign_total split: option.splits)
next
  case (DeleteGame g')
  with assms have ne: "g' \<noteq> gid" by auto
  then have "filter (\<lambda>s. ps_game_id s = gid) (filter (\<lambda>s. ps_game_id s \<noteq> g') (play_sessions d))
     = filter (\<lambda>s. ps_game_id s = gid) (play_sessions d)"
    by (auto intro: filter_cong)
  with DeleteGame assms ne show ?thesis
    by (auto simp: deleteGame_def session_seconds_def)
next
  case (AddPlaySession sid g' st en dur now)
  with assms show ?thesis
    by (auto simp: addPlaySession_def session_seconds_def Let_def split: option.splits)
qed

lemma run_balance:
  assumes "games d gid = Some row" "DeleteGame gid \<notin> set ops"
  shows "\<exists>row'. games (store_run d ops) gid = Some row'
     \<and> g_total_playtime row' - session_seconds (store_run d ops) gid
        = g_total_playtime row - session_seconds d gid"
  using assms
proof (induction ops arbitrary: d row)
  case Nil
  then show ?case by (simp add: store_run_def)
next
  case (Cons op ops)
  from Cons.prems have "op \<noteq> DeleteGame gid" by auto
  from step_balance [OF Cons.prems(1) this] obtain r1 where
    r1: "games (store_step d op) gid = Some r1"
    "g_total_playtime r1 - session_seconds (store_step d op) gid
        = g_total_playtime row - session_seconds d gid" by blast
  from Cons.prems have "DeleteGame gid \<notin> set ops" by simp
  from Cons.IH [OF r1(1) this] r1(2) show ?case by (simp add: store_run_def)
qed

lemma inserts_total:
  assumes "games d gid = Some row" "distinct (map fst xs)"
    "set (map fst xs) \<inter> set (map ps_id (play_sessions d)) = {}"
  shows "total_playtime (store_run d (session_inserts gid xs)) gid
     = Some (g_total_playtime row + sum_list (map (\<lambda>(sid, st, en, dur, now). dur) xs))"
  using assms
proof (induction xs arbitrary: d row)
  case Nil
  then show ?case by (simp add: store_run_def session_inserts_def total_playtime_def)
next
  case (Cons x xs)
  obtain sid st en dur now where x: "x = (sid, st, en, dur, now)" by (cases x) auto
  let ?d1 = "store_step d (AddPlaySession sid gid st en dur now)"
  from Cons.prems x have fresh: "sid \<notin> set (map ps_id (play_sessions d))" by auto
  with Cons.prems(1) have d1: "games ?d1 gid = Some (row\<lparr>g_total_playtime := g_total_playtime row + dur, g_updated_at := now\<rparr>)"
    "map ps_id (play_sessions ?d1) = map ps_id (play_sessions d) @ [sid]"
    by (auto simp: addPlaySession_def Let_def)
  from Cons.prems x have "distinct (map fst xs)" "sid \<notin> set (map fst xs)" by auto
  with Cons.prems(3) d1(2) have "set (map fst xs) \<inter> set (map ps_id (play_sessions ?d1)) = {}"
    by auto
  from Cons.IH [OF d1(1) \<open>distinct (map fst xs)\<close> this]
  show ?case by (simp add: x store_run_def session_inserts_def)
qed

text \<open>
  Claim C9: a library entry is created with total playtime 0; as long as the entry is
  not deleted, after any run of store operations its total is the sum of the durations
  of the sessions stored for it since its creation; after \<open>N\<close> session inserts with
  fresh identifiers and durations \<open>d1 .. dN\<close> for the entry the total is
  \<open>d1 + ... + dN\<close>. A successful \<open>addPlaySession\<close> appends the session row and adds
  exactly its duration to the total of the owning entry, and no operation other than a
  session insert for the entry (or its deletion) changes the total.
\<close>

theorem playtime_total:
  "(addGame d gid now data = Inr (d1, g) \<longrightarrow>
      total_playtime d1 gid = Some 0
      \<and> (DeleteGame gid \<notin> set ops \<longrightarrow>
           total_playtime (store_run d1 ops) gid
             = Some (session_seconds (store_run d1 ops) gid - session_seconds d1 gid))
      \<and> (distinct (map fst xs) \<and> set (map fst xs) \<inter> set (map ps_id (play_sessions d1)) = {} \<longrightarrow>
           total_playtime (store_run d1 (session_inserts gid xs)) gid
             = Some (sum_list (map (\<lambda>(sid, st, en, dur, t). dur) xs))))
   \<and> (addPlaySession d sid gid st en dur t = Inr d' \<and> games d gid \<noteq> None \<longrightarrow>
        total_playtime d' gid = map_option (\<lambda>s. s + dur) (total_playtime d gid)
        \<and> play_sessions d' = play_sessions d @
           [\<lparr>ps_id = sid, ps_game_id = gid, ps_start_time = st, ps_end_time = en, ps_duration = dur\<rparr>])
   \<and> (games d gid \<noteq> None \<and> op \<noteq> DeleteGame gid
        \<and> (\<forall>sid st en dur t. op \<noteq> AddPlaySession sid gid st en dur t) \<longrightarrow>
        total_playtime (store_step d op) gid = total_playtime d gid)"
proof -
  have a: "total_playtime d1 gid = Some 0
      \<and> (DeleteGame gid \<notin> set ops \<longrightarrow>
           total_playtime (store_run d1 ops) gid
             = Some (session_seconds (store_run d1 ops) gid - session_seconds d1 gid))
      \<and> (distinct (map fst xs) \<and> set (map fst xs) \<inter> set (map ps_id (play_sessions d1)) = {} \<longrightarrow>
           total_playtime (store_run d1 (session_inserts gid xs)) gid
             = Some (sum_list (map (\<lambda>(sid, st, en, dur, t). dur) xs)))"
    if ag: "addGame d gid now data = Inr (d1, g)"
  proof -
    from addGame_total [OF ag] have z: "total_playtime d1 gid = Some 0" .
    then obtain row where row: "games d1 gid = Some row" "g_total_playtime row = 0"
      by (auto simp: total_playtime_def)
    have r: "total_playtime (store_run d1 ops) gid
             = Some (session_seconds (store_run d1 ops) gid - session_seconds d1 gid)"
      if "DeleteGame gid \<notin> set ops"
      using run_balance [OF row(1) that] row(2) by (auto simp: total_playtime_def)
    have i: "total_playtime (store_run d1 (session_inserts gid xs)) gid
             = Some (sum_list (map (\<lambda>(sid, st, en, dur, t). dur) xs))"
      if "distinct (map fst xs)" "set (map fst xs) \<inter> set (map ps_id (play_sessions d1)) = {}"
      using inserts_total [OF row(1) that] row(2) by simp
    from z r i show ?thesis by blast
  qed
  from a addPlaySession_own(1,2) [of d sid gid st en dur t d'] step_other [of d gid op]
  show ?thesis by blast
qed

theorem playtime_total_witness:
  "(\<exists>g. addGame empty_library (str ''g1'') (str ''t0'') form0 = Inr (library1, g))
   \<and> total_playtime library1 (str ''g1'') = Some 0
   \<and> total_playtime (store_run library1 (session_inserts (str ''g1'') sessions3)) (str ''g1'')
       = Some 210"
proof -
  obtain g where ag: "addGame empty_library (str ''g1'') (str ''t0'') form0 = Inr (library1, g)"
    by (simp add: library1_def addGame_def empty_library_def Let_def)
  have ps: "play_sessions library1 = []"
    by (simp add: library1_def addGame_def empty_library_def Let_def)
  have dis: "distinct (map fst sessions3)
      \<and> set (map fst sessions3) \<inter> set (map ps_id (play_sessions library1)) = {}"
    by (simp add: ps sessions3_def str_def)
  have sum: "sum_list (map (\<lambda>(sid, st, en, dur, t). dur) sessions3) = 210"
    by (simp add: sessions3_def)
  from playtime_total [of empty_library "str ''g1''" "str ''t0''" form0 library1 g "[]" sessions3]
    ag dis
  have "total_playtime library1 (str ''g1'') = Some 0
    \<and> total_playtime (store_run library1 (session_inserts (str ''g1'') sessions3)) (str ''g1'')
       = Some (sum_list (map (\<lambda>(sid, st, en, dur, t). dur) sessions3))"
    by blast
  with ag sum show ?thesis by auto
qed

section \<open>Properties of the enrichment\<close>





lemma safe_screenshots_take:
  "safe_screenshots shots = take 4 (filter (\<lambda>s. img_sexual s < 1 \<and> img_violence s < 1) shots)"
  by (simp add: safe_screenshots_def slice0_def)

lemma screenshotsPromise_Some:
  "screenshotsPromise w (Some v)
     = fulfilled (map (screenshot_request w) (safe_screenshots (vn_screenshots v)))"
  by (simp add: screenshotsPromise_def safe_screenshots_take)



lemma demo_safe:
  "safe_screenshots (vn_screenshots vn_demo)
     = [shot ''sf1'' 0 0, shot ''sf2'' 0 0, shot ''sf3'' 0 0, shot ''sf4'' 0 (1 / 2)]"
  by (simp add: safe_screenshots_def slice0_def vn_demo_def shot_def)

lemma file_ext_jpg: "file_ext (str ''https://t.vndb.org/sf/'' @ str name @ str ''.jpg'') = str ''jpg''"
  by (simp add: file_ext_def str_def)

lemma demo_request:
  "screenshot_request demo_world (shot name s v)
     = (if str name = str ''sf2'' then Inl (Error (str ''timeout''))
        else Inr (str ''shots/'' @ str name @ str ''.jpg''))"
  by (simp add: screenshot_request_def demo_world_def shot_def file_ext_jpg) (simp add: str_def)


section \<open>Properties of bulk matching\<close>

lemma match_item_status:
  "it_status (fst (match_item w apiKey db item)) = Matched
   \<or> it_status (fst (match_item w apiKey db item)) = Failed"
  by (cases "find_match w (dg_title (it_detected item))")
    (auto simp: match_item_def Let_def split: prod.splits error.splits)

lemma match_item_exception:
  "find_match w (dg_title (it_detected item)) = Inl (Error err) \<Longrightarrow>
   match_item w apiKey db item = (item\<lparr>it_status := Failed, it_error := Some (MSG_MATCH_FAILED @ err)\<rparr>, db)"
  by (simp add: match_item_def Let_def)

lemma match_item_detected:
  "it_detected (fst (match_item w apiKey db item)) = it_detected item"
  by (cases "find_match w (dg_title (it_detected item))")
    (auto simp: match_item_def Let_def split: prod.splits error.splits)

lemma match_item_found:
  "find_match w (dg_title (it_detected item)) = Inr (vn, cands) \<Longrightarrow>
   it_vndb (fst (match_item w apiKey db item)) = vn
   \<and> it_candidates (fst (match_item w apiKey db item)) = cands
   \<and> it_status (fst (match_item w apiKey db item)) = (if vn \<noteq> None then Matched else Failed)
   \<and> it_error (fst (match_item w apiKey db item)) = (if vn \<noteq> None then None else Some MSG_NO_MATCH)"
  by (simp add: match_item_def Let_def split: prod.splits)

lemma matching_round_items:
  "i < length (ss_items st) \<Longrightarrow>
   ss_items (matching_round w apiKey n i st)
     = (ss_items st)[i := fst (match_item (w i) apiKey (ss_cache st) (ss_items st ! i))]"
  by (simp add: matching_round_def map_at_def Let_def split: prod.splits)

lemma matching_round_log:
  "i < length (ss_items st) \<Longrightarrow>
   ss_log (matching_round w apiKey n i st)
     = ss_log st @ Search (dg_title (it_detected (ss_items st ! i)))
         # (if i + 1 < n then [Delay 500] else [])"
  by (simp add: matching_round_def map_at_def Let_def split: prod.splits)

lemma rounds_invariant:
  fixes w apiKey st0
  defines "n \<equiv> length (ss_items st0)"
  defines "run \<equiv> \<lambda>k. fold (matching_round w apiKey n) [0..<k] st0"
  assumes "k \<le> n"
  shows "length (ss_items (run k)) = n
    \<and> (\<forall>i < k. \<exists>db. ss_items (run k) ! i = fst (match_item (w i) apiKey db (ss_items st0 ! i)))
    \<and> (\<forall>i. k \<le> i \<and> i < n \<longrightarrow> ss_items (run k) ! i = ss_items st0 ! i)
    \<and> ss_log (run k) = ss_log st0
         @ concat (map (round_events n (map (\<lambda>it. Search (dg_title (it_detected it))) (ss_items st0))) [0..<k])"
  using assms(3)
proof (induction k)
  case 0
  show ?case by (simp add: run_def n_def)
next
  case (Suc k)
  then have k: "k < n" and IH: "length (ss_items (run k)) = n"
    "\<forall>i < k. \<exists>db. ss_items (run k) ! i = fst (match_item (w i) apiKey db (ss_items st0 ! i))"
    "\<forall>i. k \<le> i \<and> i < n \<longrightarrow> ss_items (run k) ! i = ss_items st0 ! i"
    "ss_log (run k) = ss_log st0
         @ concat (map (round_events n (map (\<lambda>it. Search (dg_title (it_detected it))) (ss_items st0))) [0..<k])"
    by simp_all
  have step: "run (Suc k) = matching_round w apiKey n k (run k)" by (simp add: run_def)
  from k IH(1) have kl: "k < length (ss_items (run k))" by simp
  have items: "ss_items (run (Suc k))
      = (ss_items (run k))[k := fst (match_item (w k) apiKey (ss_cache (run k)) (ss_items (run k) ! k))]"
    unfolding step by (rule matching_round_items [OF kl])
  from IH(3) k have same: "ss_items (run k) ! k = ss_items st0 ! k" by simp
  have 1: "length (ss_items (run (Suc k))) = n" by (simp add: items IH(1))
  have 2: "\<exists>db. ss_items (run (Suc k)) ! i = fst (match_item (w i) apiKey db (ss_items st0 ! i))"
    if "i < Suc k" for i
  proof (cases "i = k")
    case True
    with kl same show ?thesis by (auto simp: items)
  next
    case False
    with that have "i < k" by simp
    with IH(2) False show ?thesis by (simp add: items)
  qed
  have 3: "ss_items (run (Suc k)) ! i = ss_items st0 ! i" if "Suc k \<le> i \<and> i < n" for i
    using that IH(3) by (simp add: items)
  have 4: "ss_log (run (Suc k)) = ss_log st0
         @ concat (map (round_events n (map (\<lambda>it. Search (dg_title (it_detected it))) (ss_items st0))) [0..<Suc k])"
    unfolding step matching_round_log [OF kl] IH(4) same
    using k by (simp add: round_events_def n_def)
  from 1 2 3 4 show ?case by blast
qed

lemma paused_rounds:
  "concat (map (round_events (length es) es) [0..<length es]) = paused es"
proof (induction es rule: paused.induct)
  case 1
  show ?case by simp
next
  case (2 e)
  show ?case by (simp add: round_events_def)
next
  case (3 e e' es)
  let ?es = "e' # es"
  have shift: "map (round_events (length (e # ?es)) (e # ?es)) (map Suc [0..<length ?es])
      = map (round_events (length ?es) ?es) [0..<length ?es]"
    by (simp add: round_events_def)
  have upt: "[0..<length (e # ?es)] = 0 # map Suc [0..<length ?es]"
    by (simp add: upt_conv_Cons map_Suc_upt del: upt_Suc)
  have "concat (map (round_events (length (e # ?es)) (e # ?es)) [0..<length (e # ?es)])
      = round_events (length (e # ?es)) (e # ?es) 0
        @ concat (map (round_events (length (e # ?es)) (e # ?es)) (map Suc [0..<length ?es]))"
    by (simp only: upt list.map concat.simps)
  also have "\<dots> = round_events (length (e # ?es)) (e # ?es) 0
        @ concat (map (round_events (length ?es) ?es) [0..<length ?es])"
    by (simp only: shift)
  also have "\<dots> = [e, Delay 500] @ paused ?es"
  proof -
    have r0: "round_events (length (e # ?es)) (e # ?es) 0 = [e, Delay 500]"
      by (simp add: round_events_def)
    show ?thesis by (simp only: r0 "3.IH")
  qed
  finally show ?case by (simp del: upt_Suc)
qed

lemma find_match_exception:
  "searchVn w t = Inl e \<or> (\<exists>c cs. searchVn w t = Inr (c # cs) \<and> getVnById w (vn_id c) = Inl e)
   \<Longrightarrow> find_match w t = Inl e"
  by (auto simp: find_match_def)

lemma startMatching_items:
  "length (ss_items (startMatching w apiKey st)) = length (ss_items st)
   \<and> (\<forall>i < length (ss_items st).
        \<exists>db. ss_items (startMatching w apiKey st) ! i
               = fst (match_item (w i) apiKey db (ss_items st ! i)))
   \<and> ss_log (startMatching w apiKey st)
       = ss_log st @ paused (map (\<lambda>it. Search (dg_title (it_detected it))) (ss_items st))"
proof (cases "ss_items st = []")
  case True
  then show ?thesis by (simp add: startMatching_def)
next
  case False
  let ?st0 = "st\<lparr>ss_phase := MatchingPhase\<rparr>"
  let ?n = "length (ss_items st)"
  let ?es = "map (\<lambda>it. Search (dg_title (it_detected it))) (ss_items st)"
  from rounds_invariant [of ?n ?st0 w apiKey]
  have inv: "length (ss_items (fold (matching_round w apiKey ?n) [0..<?n] ?st0)) = ?n"
    "\<forall>i < ?n. \<exists>db. ss_items (fold (matching_round w apiKey ?n) [0..<?n] ?st0) ! i
        = fst (match_item (w i) apiKey db (ss_items st ! i))"
    "ss_log (fold (matching_round w apiKey ?n) [0..<?n] ?st0)
        = ss_log st @ concat (map (round_events ?n ?es) [0..<?n])"
    by simp_all
  from paused_rounds [of ?es] have "concat (map (round_events ?n ?es) [0..<?n]) = paused ?es"
    by simp
  with inv False show ?thesis by (simp add: startMatching_def Let_def)
qed

text \<open>
  Claim C7: bulk matching takes the items one after the other, in order, with a pause
  of 500 ms between two consecutive items and none after the last: the log of the
  awaited steps is one search per item with a pause between. An exception of the
  search or of the detail request of an item sets the status of that item to failed
  with the rendering of the exception, leaves the rest of the item as it was, and the
  loop goes on: every item of the batch ends matched or failed, with its own detected
  game, and an item whose search returns is matched when a record is found and failed
  with the no-match message otherwise, whatever happened to the other items.
\<close>

theorem bulk_matching:
  "length (ss_items (startMatching w apiKey st)) = length (ss_items st)
   \<and> ss_log (startMatching w apiKey st)
       = ss_log st @ paused (map (\<lambda>it. Search (dg_title (it_detected it))) (ss_items st))
   \<and> (\<forall>i < length (ss_items st).
        (it_status (ss_items (startMatching w apiKey st) ! i) = Matched
          \<or> it_status (ss_items (startMatching w apiKey st) ! i) = Failed)
        \<and> it_detected (ss_items (startMatching w apiKey st) ! i) = it_detected (ss_items st ! i)
        \<and> (\<forall>err. searchVn (w i) (dg_title (it_detected (ss_items st ! i))) = Inl (Error err)
                  \<or> (\<exists>c cs. searchVn (w i) (dg_title (it_detected (ss_items st ! i))) = Inr (c # cs)
                        \<and> getVnById (w i) (vn_id c) = Inl (Error err))
             \<longrightarrow> ss_items (startMatching w apiKey st) ! i
                   = (ss_items st ! i)\<lparr>it_status := Failed, it_error := Some (MSG_MATCH_FAILED @ err)\<rparr>)
        \<and> (\<forall>vn cands. find_match (w i) (dg_title (it_detected (ss_items st ! i))) = Inr (vn, cands)
             \<longrightarrow> it_vndb (ss_items (startMatching w apiKey st) ! i) = vn
                 \<and> it_status (ss_items (startMatching w apiKey st) ! i)
                     = (if vn \<noteq> None then Matched else Failed)
                 \<and> it_error (ss_items (startMatching w apiKey st) ! i)
                     = (if vn \<noteq> None then None else Some MSG_NO_MATCH)))"
proof -
  let ?st' = "startMatching w apiKey st"
  from startMatching_items [of w apiKey st]
  have len: "length (ss_items ?st') = length (ss_items st)"
    and each: "\<forall>i < length (ss_items st).
        \<exists>db. ss_items ?st' ! i = fst (match_item (w i) apiKey db (ss_items st ! i))"
    and log: "ss_log ?st'
       = ss_log st @ paused (map (\<lambda>it. Search (dg_title (it_detected it))) (ss_items st))"
    by blast+
  have item: "(it_status (ss_items ?st' ! i) = Matched \<or> it_status (ss_items ?st' ! i) = Failed)
        \<and> it_detected (ss_items ?st' ! i) = it_detected (ss_items st ! i)
        \<and> (\<forall>err. searchVn (w i) (dg_title (it_detected (ss_items st ! i))) = Inl (Error err)
                  \<or> (\<exists>c cs. searchVn (w i) (dg_title (it_detected (ss_items st ! i))) = Inr (c # cs)
                        \<and> getVnById (w i) (vn_id c) = Inl (Error err))
             \<longrightarrow> ss_items ?st' ! i
                   = (ss_items st ! i)\<lparr>it_status := Failed, it_error := Some (MSG_MATCH_FAILED @ err)\<rparr>)
        \<and> (\<forall>vn cands. find_match (w i) (dg_title (it_detected (ss_items st ! i))) = Inr (vn, cands)
             \<longrightarrow> it_vndb (ss_items ?st' ! i) = vn
                 \<and> it_status (ss_items ?st' ! i) = (if vn \<noteq> None then Matched else Failed)
                 \<and> it_error (ss_items ?st' ! i) = (if vn \<noteq> None then None else Some MSG_NO_MATCH))"
    if "i < length (ss_items st)" for i
  proof -
    from each that obtain db where
      e: "ss_items ?st' ! i = fst (match_item (w i) apiKey db (ss_items st ! i))" by blast
    have a: "it_status (ss_items ?st' ! i) = Matched \<or> it_status (ss_items ?st' ! i) = Failed"
      unfolding e by (rule match_item_status)
    have b: "it_detected (ss_items ?st' ! i) = it_detected (ss_items st ! i)"
      unfolding e by (rule match_item_detected)
    have c: "ss_items ?st' ! i
        = (ss_items st ! i)\<lparr>it_status := Failed, it_error := Some (MSG_MATCH_FAILED @ err)\<rparr>"
      if "searchVn (w i) (dg_title (it_detected (ss_items st ! i))) = Inl (Error err)
          \<or> (\<exists>c cs. searchVn (w i) (dg_title (it_detected (ss_items st ! i))) = Inr (c # cs)
                \<and> getVnById (w i) (vn_id c) = Inl (Error err))" for err
      unfolding e using match_item_exception [OF find_match_exception [OF that]] by simp
    have d: "it_vndb (ss_items ?st' ! i) = vn
        \<and> it_status (ss_items ?st' ! i) = (if vn \<noteq> None then Matched else Failed)
        \<and> it_error (ss_items ?st' ! i) = (if vn \<noteq> None then None else Some MSG_NO_MATCH)"
      if "find_match (w i) (dg_title (it_detected (ss_items st ! i))) = Inr (vn, cands)" for vn cands
      unfolding e using match_item_found [OF that] by simp
    from a b c d show ?thesis by blast
  qed
  from len log item show ?thesis by blast
qed

theorem bulk_matching_witness:
  "length (ss_items (startMatching demo_rounds [] (scan0 items3))) = 3
   \<and> ss_log (startMatching demo_rounds [] (scan0 items3))
       = [Search (str ''A''), Delay 500, Search (str ''B''), Delay 500, Search (str ''C'')]
   \<and> it_status (ss_items (startMatching demo_rounds [] (scan0 items3)) ! 0) = Matched
   \<and> ss_items (startMatching demo_rounds [] (scan0 items3)) ! 1
       = (new_item (detected ''B''))\<lparr>it_status := Failed,
            it_error := Some (MSG_MATCH_FAILED @ str ''Error: offline'')\<rparr>
   \<and> it_status (ss_items (startMatching demo_rounds [] (scan0 items3)) ! 2) = Failed
   \<and> it_error (ss_items (startMatching demo_rounds [] (scan0 items3)) ! 2) = Some MSG_NO_MATCH"
proof -
  let ?st = "scan0 items3"
  let ?R = "startMatching demo_rounds [] ?st"
  have items: "ss_items ?st = items3" "ss_log ?st = []" by (simp_all add: scan0_def)
  have n: "length (ss_items ?st) = 3" by (simp add: scan0_def items3_def)
  have at: "ss_items ?st ! 0 = new_item (detected ''A'')" "ss_items ?st ! 1 = new_item (detected ''B'')"
    "ss_items ?st ! 2 = new_item (detected ''C'')"
    by (simp_all add: scan0_def items3_def)
  have titles: "map (\<lambda>it. Search (dg_title (it_detected it))) (ss_items ?st)
      = [Search (str ''A''), Search (str ''B''), Search (str ''C'')]"
    by (simp add: scan0_def items3_def new_item_def detected_def)
  have f0: "find_match (demo_rounds 0) (dg_title (it_detected (ss_items ?st ! 0)))
      = Inr (Some vn_demo, [vn_demo])"
    by (simp add: at demo_rounds_def find_match_def demo_world_def)
  have f1: "searchVn (demo_rounds 1) (dg_title (it_detected (ss_items ?st ! 1)))
      = Inl (Error (str ''Error: offline''))"
    by (simp add: at demo_rounds_def offline_world_def demo_world_def)
  have f2: "find_match (demo_rounds 2) (dg_title (it_detected (ss_items ?st ! 2))) = Inr (None, [])"
    by (simp add: at demo_rounds_def find_match_def empty_world_def demo_world_def)
  note bm = bulk_matching [of demo_rounds "[]" ?st]
  from bm [THEN conjunct1] have len: "length (ss_items ?R) = 3" by (simp only: n)
  from bm [THEN conjunct2, THEN conjunct1]
  have "ss_log ?R = ss_log ?st @ paused (map (\<lambda>it. Search (dg_title (it_detected it))) (ss_items ?st))" .
  then have log: "ss_log ?R
      = [Search (str ''A''), Delay 500, Search (str ''B''), Delay 500, Search (str ''C'')]"
    unfolding titles by (simp add: scan0_def)
  note each = bm [THEN conjunct2, THEN conjunct2, unfolded n]
  have i3: "(0::nat) < 3" "(1::nat) < 3" "(2::nat) < 3" by simp_all
  from each [rule_format, OF i3(1)] f0 have r0: "it_status (ss_items ?R ! 0) = Matched" by force
  from each [rule_format, OF i3(2)] f1 have r1: "ss_items ?R ! 1
      = (ss_items ?st ! 1)\<lparr>it_status := Failed, it_error := Some (MSG_MATCH_FAILED @ str ''Error: offline'')\<rparr>"
    by force
  from each [rule_format, OF i3(3)] f2 have r2: "it_status (ss_items ?R ! 2) = Failed \<and> it_error (ss_items ?R ! 2) = Some MSG_NO_MATCH"
    by force
  from len log r0 r1 [unfolded at] r2 show ?thesis by blast
qed

section \<open>Properties of the commit\<close>

lemma demo_screenshots:
  "screenshotsPromise demo_world (Some vn_demo)
     = [str ''shots/sf1.jpg'', str ''shots/sf3.jpg'', str ''shots/sf4.jpg'']"
  by (simp add: screenshotsPromise_Some demo_safe demo_request) (simp add: str_def)

lemma replace_all_plain: "91 \<notin> set s \<Longrightarrow> replace_all re f s = s"
  using skip_text [of s re f "[]"] by (simp add: replace_all.simps)

lemma cleanDescription_plain:
  "91 \<notin> set d \<Longrightarrow> cleanDescription (Some d) = (if d = [] then [] else trim d)"
  by (simp add: cleanDescription_def replace_all_plain)

lemma demo_description: "descPromise demo_world [] (Some vn_demo) = str ''A story.''"
proof -
  have "91 \<notin> set (str ''A story.'')" by (simp add: str_def)
  from cleanDescription_plain [OF this]
  have "cleanDescription (Some (str ''A story.'')) = str ''A story.''"
    by (simp add: trim_def is_ws_def str_def)
  then show ?thesis by (simp add: descPromise_def vn_demo_def)
qed

lemma demo_tags: "tagsPromise demo_world db [] (Some vn_demo) = ([str ''Romance''], db)"
  by (simp add: tagsPromise_def vn_demo_def extractTags_def js_sort_def slice0_def Let_def str_def)

lemma demo_cover: "coverPromise demo_world (Some vn_demo) = []"
  by (simp add: coverPromise_def vn_demo_def)

lemma demo_find: "find_match demo_world t = Inr (Some vn_demo, [vn_demo])"
  by (simp add: find_match_def demo_world_def)

lemma demo_match_item:
  "match_item demo_world [] db (new_item g)
     = ((new_item g)\<lparr>it_vndb := Some vn_demo, it_candidates := [vn_demo], it_coverPath := [],
          it_screenshotPaths := [str ''shots/sf1.jpg'', str ''shots/sf3.jpg'', str ''shots/sf4.jpg''],
          it_translatedDesc := str ''A story.'', it_translatedTags := [str ''Romance''],
          it_status := Matched, it_error := None\<rparr>, db)"
  by (simp add: match_item_def demo_find demo_cover demo_screenshots demo_description demo_tags
      new_item_def)

lemma demo_matched_items:
  "ss_items demo_matched
     = [(new_item (detected ''A''))\<lparr>it_vndb := Some vn_demo, it_candidates := [vn_demo],
          it_coverPath := [],
          it_screenshotPaths := [str ''shots/sf1.jpg'', str ''shots/sf3.jpg'', str ''shots/sf4.jpg''],
          it_translatedDesc := str ''A story.'', it_translatedTags := [str ''Romance''],
          it_status := Matched, it_error := None\<rparr>]"
  "ss_activeIdx demo_matched = Some 0"
  by (simp_all add: demo_matched_def startMatching_def scan0_def matching_round_def map_at_def
      demo_match_item Let_def)

text \<open>
  What \<open>handleImport\<close> builds: one record per item; for an item without a record the
  detected game and the enrichment fields the item holds; for an item with a record the
  translated tags if there are any, else the extracted ones. An item that bulk matching
  leaves without a record holds no enrichment.
\<close>

lemma handleImport_one_per_item:
  "length (snd (handleImport st)) = length (ss_items st)"
  by (simp add: handleImport_def)

lemma import_record_unmatched:
  "it_vndb item = None \<Longrightarrow>
   import_record item =
     \<lparr>fd_title = dg_title (it_detected item), fd_title_original = [], fd_vndb_id = [],
      fd_developer = [], fd_release_date = [], fd_exe_path = dg_exe_path (it_detected item),
      fd_install_path = dg_install_path (it_detected item), fd_save_path = [],
      fd_cover_path = it_coverPath item, fd_screenshots = it_screenshotPaths item,
      fd_tags = it_translatedTags item, fd_play_status = unplayed, fd_rating = 0,
      fd_vndb_rating = 0, fd_vndb_votecount = None, fd_length_minutes = None,
      fd_notes = it_translatedDesc item, fd_engine = or_str (dg_engine (it_detected item)) []\<rparr>"
  by (simp add: import_record_def Let_def)

lemma import_record_matched_tags:
  "it_vndb item = Some v \<Longrightarrow>
   fd_tags (import_record item)
     = (if it_translatedTags item \<noteq> [] then it_translatedTags item
        else extractTags (vn_tags v) 0 8)"
  by (simp add: import_record_def Let_def)

lemma match_item_unmatched_empty:
  assumes "it_vndb (fst (match_item w apiKey db (new_item g))) = None"
  shows "it_coverPath (fst (match_item w apiKey db (new_item g))) = []
    \<and> it_screenshotPaths (fst (match_item w apiKey db (new_item g))) = []
    \<and> it_translatedDesc (fst (match_item w apiKey db (new_item g))) = []
    \<and> it_translatedTags (fst (match_item w apiKey db (new_item g))) = []"
proof (cases "find_match w (dg_title (it_detected (new_item g)))")
  case (Inl e)
  then show ?thesis by (cases e) (simp add: match_item_def new_item_def)
next
  case (Inr r)
  obtain vn cands where r: "r = (vn, cands)" by (cases r)
  with Inr assms have "vn = None" by (simp add: match_item_def Let_def split: prod.splits)
  with Inr r show ?thesis
    by (simp add: match_item_def Let_def coverPromise_def screenshotsPromise_def descPromise_def
        tagsPromise_def split: prod.splits)
qed

text \<open>
  Claim C1, at the input where the program departs from it: a game is matched by bulk
  matching, its match is cleared in the review, and the batch is committed. The item
  has no record, is failed and carries the skip message; its import record has an empty
  catalog identifier and an empty cover, but the screenshots, the tags and the notes of
  the cleared match are still in it. \<open>clearMatch\<close> resets the record and the cover path
  and leaves \<open>screenshotPaths\<close>, \<open>translatedDesc\<close> and \<open>translatedTags\<close> as they were.
\<close>

theorem handleImport_after_clearMatch:
  "map it_status (ss_items demo_matched) = [Matched]
   \<and> map it_vndb (ss_items demo_cleared) = [None]
   \<and> map it_status (ss_items demo_cleared) = [Failed]
   \<and> map it_error (ss_items demo_cleared) = [Some MSG_MANUALLY_SKIPPED]
   \<and> map fd_title (snd (handleImport demo_cleared)) = [str ''A'']
   \<and> map fd_vndb_id (snd (handleImport demo_cleared)) = [[]]
   \<and> map fd_cover_path (snd (handleImport demo_cleared)) = [[]]
   \<and> map fd_screenshots (snd (handleImport demo_cleared))
       = [[str ''shots/sf1.jpg'', str ''shots/sf3.jpg'', str ''shots/sf4.jpg'']]
   \<and> map fd_tags (snd (handleImport demo_cleared)) = [[str ''Romance'']]
   \<and> map fd_notes (snd (handleImport demo_cleared)) = [str ''A story.'']"
  by (simp add: demo_cleared_def clearMatch_def demo_matched_items map_at_def handleImport_def
      import_record_def new_item_def detected_def Let_def)

end
